theory Spec2Isabelle
  imports Complex_Main "HOL-Library.Char_ord" "HOL-Library.List_Lexorder"
begin

section \<open>Numbers\<close>

text \<open>
  The backend computes with Python \<^verbatim>\<open>Decimal\<close> values (calibration, costs, upgrade
  chance) and stores balances, valuations and probabilities as floats. Both are embedded
  as \<^typ>\<open>real\<close>: every operation is the exact one. The rounding of the decimal
  context to 28 significant digits and of binary floating point to 53 bits is outside
  this embedding. On the small example inputs below every intermediate value of the
  source is exactly representable, so the source computes the same values; on the
  catalogue cases the values of the source differ from the exact ones by that rounding
  only.
\<close>

type_synonym decimal = real

subsection \<open>Configuration constants\<close>

definition AUTH_DATE_MAX_AGE_SECONDS :: nat where
  "AUTH_DATE_MAX_AGE_SECONDS = 3600 * 24"

definition UPGRADE_MAX_CHANCE :: decimal where
  "UPGRADE_MAX_CHANCE = 75"

definition UPGRADE_MIN_CHANCE :: decimal where
  "UPGRADE_MIN_CHANCE = 3"

definition UPGRADE_RISK_FACTOR :: decimal where
  "UPGRADE_RISK_FACTOR = 6 / 10"

definition RTP_TARGET :: decimal where
  "RTP_TARGET = 88 / 100"

section \<open>Upgrade chance\<close>

text \<open>
  Lines 469-470 of \<^verbatim>\<open>upgrade_item_v2_api\<close>:
  \<^verbatim>\<open>x = val_desired / val_current\<close> and
  \<^verbatim>\<open>chance = min(MAX, max(MIN, MAX * (RISK ** (x - 1))))\<close>.
  The decimal power with a fractional exponent is the real power \<open>powr\<close>.
\<close>

definition upgrade_chance :: "decimal \<Rightarrow> decimal \<Rightarrow> decimal" where
  "upgrade_chance val_current val_desired =
     (let x = val_desired / val_current
      in min UPGRADE_MAX_CHANCE
           (max UPGRADE_MIN_CHANCE (UPGRADE_MAX_CHANCE * (UPGRADE_RISK_FACTOR powr (x - 1)))))"

text \<open>The formula in the words of the specification, with its own clamp.\<close>

definition spec_clamp :: "real \<Rightarrow> real \<Rightarrow> real \<Rightarrow> real" where
  "spec_clamp v lo hi = (if v < lo then lo else if hi < v then hi else v)"

definition spec_successChance :: "real \<Rightarrow> real \<Rightarrow> real \<Rightarrow> real \<Rightarrow> real \<Rightarrow> real" where
  "spec_successChance currentValue desiredValue maxChance minChance riskFactor =
     spec_clamp (maxChance * riskFactor powr (desiredValue / currentValue - 1)) minChance maxChance"

section \<open>Prize table calibration\<close>

text \<open>
  A raw prize of a case definition (\<^verbatim>\<open>p_info\<close>): the keys \<^verbatim>\<open>imageFilename\<close> and
  \<^verbatim>\<open>is_ton_prize\<close> are optional and read with \<^verbatim>\<open>.get\<close>.
\<close>

record prize_info =
  pi_name :: string
  pi_probability :: decimal
  pi_imageFilename :: "string option"
  pi_is_ton_prize :: "bool option"

text \<open>A prize as the calibration functions build it and return it.\<close>

record prize =
  name :: string
  probability :: decimal
  floor_price :: decimal
  imageFilename :: string
  is_ton_prize :: bool

text \<open>A case; its prizes are raw before calibration and calibrated after.\<close>

record 'p case_data =
  case_id :: string
  case_name :: string
  case_imageFilename :: string
  priceTON :: decimal
  prizes :: "'p list"

text \<open>
  The first loop of both calibration functions. \<^verbatim>\<open>all_floor_prices.get(name, 0)\<close> is a
  dictionary lookup with default; \<^verbatim>\<open>generate_image_filename_from_name\<close> only produces
  the image reference and is taken as the parameter \<open>gen_image\<close>.
\<close>

definition build_prizes ::
  "(string \<Rightarrow> string) \<Rightarrow> prize_info case_data \<Rightarrow> (string \<rightharpoonup> decimal) \<Rightarrow> prize list" where
  "build_prizes gen_image case_data all_floor_prices =
     map (\<lambda>p_info.
            \<lparr> name = pi_name p_info,
              probability = pi_probability p_info,
              floor_price = (case all_floor_prices (pi_name p_info) of None \<Rightarrow> 0 | Some v \<Rightarrow> v),
              imageFilename = (case pi_imageFilename p_info of
                                 None \<Rightarrow> gen_image (pi_name p_info) | Some f \<Rightarrow> f),
              is_ton_prize = (case pi_is_ton_prize p_info of None \<Rightarrow> False | Some b \<Rightarrow> b) \<rparr>)
         (prizes case_data)"

text \<open>
  The float literal \<^verbatim>\<open>1e-7\<close>: the comparison of a decimal with a float is exact in
  Python, so the threshold is the value of the double nearest to \<open>10\<^sup>-\<^sup>7\<close>.
\<close>

definition FLOAT_1E_7 :: real where
  "FLOAT_1E_7 = 944473296573929 / 2 ^ 73"

definition sum_probs :: "prize list \<Rightarrow> decimal" where
  "sum_probs ps = sum_list (map probability ps)"

text \<open>
  The last two statements before the return of both functions:
  \<^verbatim>\<open>if abs(sum_probs - 1) > 1e-7: prizes[0]['probability'] += 1 - sum_probs\<close>.
  Both callers reach it with a non-empty list; on the empty list \<^verbatim>\<open>prizes[0]\<close> would
  raise, which is \<open>None\<close> here.
\<close>

definition final_correction :: "prize list \<Rightarrow> prize list option" where
  "final_correction ps =
     (if \<bar>sum_probs ps - 1\<bar> > FLOAT_1E_7
      then (case ps of
              [] \<Rightarrow> None
            | p0 # rest \<Rightarrow> Some (p0\<lparr>probability := probability p0 + (1 - sum_probs ps)\<rparr> # rest))
      else Some ps)"

text \<open>
  \<^verbatim>\<open>calculate_rtp_probabilities_proportional_fallback\<close>. The result \<open>None\<close> stands for
  an exception (it does not occur: see \<open>fallback_result\<close>), \<open>Some []\<close> for the
  empty table.
\<close>

definition calculate_rtp_probabilities_proportional_fallback ::
  "(string \<Rightarrow> string) \<Rightarrow> prize_info case_data \<Rightarrow> (string \<rightharpoonup> decimal) \<Rightarrow> prize list option" where
  "calculate_rtp_probabilities_proportional_fallback gen_image case_data all_floor_prices =
     (let case_price = priceTON case_data;
          target_ev = case_price * RTP_TARGET;
          ps = build_prizes gen_image case_data all_floor_prices;
          current_ev = sum_list (map (\<lambda>p. floor_price p * probability p) ps)
      in if current_ev \<le> 0 then Some []
         else
           let scale = target_ev / current_ev;
               ps1 = map (\<lambda>p. p\<lparr>probability := probability p * scale\<rparr>) ps;
               total_prob = sum_probs ps1
           in if total_prob \<le> 0 then Some []
              else final_correction (map (\<lambda>p. p\<lparr>probability := probability p / total_prob\<rparr>) ps1))"

text \<open>
  \<^verbatim>\<open>min(..., key=lambda p: p['floor_price'], default=None)\<close> over the prizes of positive
  floor price: Python's \<^verbatim>\<open>min\<close> keeps the first of several minimal elements. The
  filler is later told apart by object identity (\<^verbatim>\<open>p is not filler_prize\<close>), so the
  model finds its position in the list.
\<close>

fun py_min_floor :: "nat \<times> prize \<Rightarrow> (nat \<times> prize) list \<Rightarrow> nat \<times> prize" where
  "py_min_floor best [] = best"
| "py_min_floor best (c # cs) =
     py_min_floor (if floor_price (snd c) < floor_price (snd best) then c else best) cs"

definition filler_index :: "prize list \<Rightarrow> nat option" where
  "filler_index ps =
     (case filter (\<lambda>(i, p). floor_price p > 0) (enumerate 0 ps) of
        [] \<Rightarrow> None
      | c # cs \<Rightarrow> Some (fst (py_min_floor c cs)))"

definition non_filler :: "nat \<Rightarrow> prize list \<Rightarrow> prize list" where
  "non_filler f ps = map snd (filter (\<lambda>(i, p). i \<noteq> f) (enumerate 0 ps))"

text \<open>
  Lines 222-226: when the other prizes have positive total weight, each of them is
  multiplied by \<^verbatim>\<open>scale\<close>; then the filler's probability is set.
\<close>

definition anchor_filler :: "nat \<Rightarrow> decimal \<Rightarrow> decimal \<Rightarrow> prize list \<Rightarrow> prize list" where
  "anchor_filler f req_filler_prob non_filler_prob ps =
     (let ps1 = (if non_filler_prob > 0
                 then let scale = (1 - req_filler_prob) / non_filler_prob
                      in map (\<lambda>(i, p). if i \<noteq> f then p\<lparr>probability := probability p * scale\<rparr> else p)
                           (enumerate 0 ps)
                 else ps)
      in ps1[f := (ps1 ! f)\<lparr>probability := req_filler_prob\<rparr>])"

text \<open>\<^verbatim>\<open>calculate_rtp_probabilities\<close>, the filler-anchored method.\<close>

definition calculate_rtp_probabilities ::
  "(string \<Rightarrow> string) \<Rightarrow> prize_info case_data \<Rightarrow> (string \<rightharpoonup> decimal) \<Rightarrow> prize list option" where
  "calculate_rtp_probabilities gen_image case_data all_floor_prices =
     (let case_price = priceTON case_data;
          target_ev = case_price * RTP_TARGET;
          ps = build_prizes gen_image case_data all_floor_prices
      in if ps = [] \<or> (\<forall>p \<in> set ps. floor_price p = 0) then Some []
         else case filler_index ps of
           None \<Rightarrow> calculate_rtp_probabilities_proportional_fallback gen_image case_data all_floor_prices
         | Some f \<Rightarrow>
             let filler_prize = ps ! f;
                 sum_non_filler_ev = sum_list (map (\<lambda>p. floor_price p * probability p) (non_filler f ps));
                 non_filler_prob = sum_list (map probability (non_filler f ps));
                 rem_ev = target_ev - sum_non_filler_ev
             in if floor_price filler_prize \<le> 0
                then calculate_rtp_probabilities_proportional_fallback gen_image case_data all_floor_prices
                else
                  let req_filler_prob = rem_ev / floor_price filler_prize
                  in if \<not> (0 \<le> req_filler_prob \<and> req_filler_prob \<le> 1)
                     then calculate_rtp_probabilities_proportional_fallback gen_image case_data all_floor_prices
                     else final_correction (anchor_filler f req_filler_prob non_filler_prob ps))"

text \<open>
  \<^verbatim>\<open>cases_data_backend\<close>: every raw case with its prizes replaced by the calibrated
  table. A calibration that raised would end the import of the module (\<open>None\<close>).
\<close>

fun cases_data_backend ::
  "(string \<Rightarrow> string) \<Rightarrow> prize_info case_data list \<Rightarrow> (string \<rightharpoonup> decimal) \<Rightarrow> prize case_data list option" where
  "cases_data_backend gen_image [] fp = Some []"
| "cases_data_backend gen_image (c # cs) fp =
     (case calculate_rtp_probabilities gen_image c fp of
        None \<Rightarrow> None
      | Some t \<Rightarrow> (case cases_data_backend gen_image cs fp of
                    None \<Rightarrow> None
                  | Some r \<Rightarrow> Some (\<lparr> case_id = case_id c, case_name = case_name c,
                                      case_imageFilename = case_imageFilename c,
                                      priceTON = priceTON c, prizes = t \<rparr> # r)))"

text \<open>The expected value of a table: the sum of probability times floor price.\<close>

definition table_ev :: "prize list \<Rightarrow> real" where
  "table_ev ps = sum_list (map (\<lambda>p. probability p * floor_price p) ps)"

subsection \<open>Catalogue data\<close>

text \<open>
  The valuation table \<^verbatim>\<open>UPDATED_FLOOR_PRICES\<close> of the source, in the order of its
  literal (no key occurs twice), read through \<open>map_of\<close>.
\<close>

definition UPDATED_FLOOR_PRICES :: "(string \<times> decimal) list" where
  "UPDATED_FLOOR_PRICES = [
    (''Plush Pepe'', 3024), (''Neko Helmet'', 15), (''Sharp Tongue'', 17),
    (''Durov's Cap'', 420), (''Voodoo Doll'', 94 / 10), (''Vintage Cigar'', 24),
    (''Astral Shard'', 80), (''Scared Cat'', 22), (''Swiss Watch'', 25),
    (''Perfume Bottle'', 88), (''Precious Peach'', 270), (''Toy Bear'', 163 / 10),
    (''Genie Lamp'', 46), (''Loot Bag'', 45), (''Kissed Frog'', 24),
    (''Electric Skull'', 109 / 10), (''Diamond Ring'', 12), (''Mini Oscar'', 405 / 10),
    (''Party Sparkler'', 2), (''Homemade Cake'', 2), (''Cookie Heart'', 18 / 10),
    (''Jack-in-the-box'', 2), (''Skull Flower'', 34 / 10), (''Lol Pop'', 11 / 10),
    (''Hypno Lollipop'', 14 / 10), (''Desk Calendar'', 11 / 10), (''B-Day Candle'', 14 / 10),
    (''Record Player'', 4), (''Jelly Bunny'', 36 / 10), (''Tama Gadget'', 4),
    (''Snow Globe'', 2), (''Eternal Rose'', 11), (''Love Potion'', 54 / 10), (''Top Hat'', 6),
    (''Berry Box'', 41 / 10), (''Bunny Muffin'', 4), (''Candy Cane'', 16 / 10),
    (''Crystal Ball'', 6), (''Easter Egg'', 18 / 10), (''Eternal Candle'', 31 / 10),
    (''Evil Eye'', 42 / 10), (''Flying Broom'', 45 / 10), (''Ginger Cookie'', 27 / 10),
    (''Hanging Star'', 41 / 10), (''Hex Pot'', 31 / 10), (''Ion Gem'', 44), (''Jester Hat'', 2),
    (''Jingle Bells'', 18 / 10), (''Love Candle'', 67 / 10), (''Lunar Snake'', 15 / 10),
    (''Mad Pumpkin'', 62 / 10), (''Magic Potion'', 54), (''Pet Snake'', 32 / 10),
    (''Sakura Flower'', 41 / 10), (''Santa Hat'', 2), (''Signet Ring'', 188 / 10),
    (''Sleigh Bell'', 6), (''Snow Mittens'', 29 / 10), (''Spiced Wine'', 22 / 10),
    (''Spy Agaric'', 28 / 10), (''Star Notepad'', 28 / 10), (''Trapped Heart'', 6),
    (''Winter Wreath'', 2), (''Big Year'', 44 / 10), (''Snake Box'', 33 / 10),
    (''Bonded Ring'', 605 / 10), (''Xmas Stocking'', 25 / 10), (''Dildo'', 43), (''Skebob'', 10),
    (''Baggin' Cat'', 3), (''Restless Jar'', 4), (''Nail Bracelet'', 70),
    (''Heroic Helmet'', 190), (''Bow Tie'', 3), (''Heart Locket'', 990), (''Lush Bouquet'', 3),
    (''Whip Cupcake'', 2), (''Joyful Bundle'', 3), (''Cupid Charm'', 12), (''Valentine Box'', 4),
    (''Snoop Dogg'', 212 / 100), (''Swag Bag'', 212 / 100), (''Snoop Cigar'', 4),
    (''Low Rider'', 30), (''Westside Sign'', 98)
  ]"

definition raw_prize :: "string \<times> decimal \<Rightarrow> prize_info" where
  "raw_prize e = \<lparr> pi_name = fst e, pi_probability = snd e, pi_imageFilename = None,
                  pi_is_ton_prize = None \<rparr>"

text \<open>
  Two entries of \<^verbatim>\<open>cases_data_backend_raw\<close>, their prizes in the order that
  \<^verbatim>\<open>sorted(..., key=floor price, reverse=True)\<close> gives them (a stable sort).
\<close>

definition case_plushpepe :: "prize_info case_data" where
  "case_plushpepe =
     \<lparr> case_id = ''plushpepe'', case_name = ''Plush Pepe Hoard'',
       case_imageFilename =
         ''https://raw.githubusercontent.com/Vasiliy-katsyka/case/main/caseImages/Plush-Pepe.jpg'',
       priceTON = 200,
       prizes = map raw_prize [
         (''Plush Pepe'', 1 / 1000000), (''Heart Locket'', 1 / 1000000),
         (''Durov's Cap'', 5 / 1000000), (''Precious Peach'', 4 / 10),
         (''Astral Shard'', 299993 / 1000000), (''Bonded Ring'', 3 / 10)
       ] \<rparr>"

definition case_girls_collection :: "prize_info case_data" where
  "case_girls_collection =
     \<lparr> case_id = ''girls_collection'', case_name = ''Girl's Collection'',
       case_imageFilename =
         ''https://raw.githubusercontent.com/Vasiliy-katsyka/case/main/caseImages/girls.jpg'',
       priceTON = 8,
       prizes = map raw_prize [
         (''Genie Lamp'', 1 / 100000), (''Loot Bag'', 1 / 100000),
         (''Sharp Tongue'', 1 / 100000), (''Toy Bear'', 1 / 100000),
         (''Neko Helmet'', 1 / 100000), (''Cupid Charm'', 1 / 10), (''Eternal Rose'', 1 / 10000),
         (''Berry Box'', 2 / 10), (''Sakura Flower'', 2 / 10), (''Valentine Box'', 1 / 10),
         (''Bunny Muffin'', 19985 / 100000), (''Star Notepad'', 2 / 10)
       ] \<rparr>"

text \<open>Small case definitions on which every decimal operation of the source is exact.\<close>

definition case_single :: "prize_info case_data" where
  "case_single =
     \<lparr> case_id = ''single'', case_name = ''Single'', case_imageFilename = ''single.jpg'',
       priceTON = 5, prizes = map raw_prize [(''A'', 5 / 10)] \<rparr>"

definition case_two_primary :: "prize_info case_data" where
  "case_two_primary =
     \<lparr> case_id = ''two_a'', case_name = ''Two A'', case_imageFilename = ''two.jpg'',
       priceTON = 2, prizes = map raw_prize [(''A'', 1 / 10), (''B'', 9 / 10)] \<rparr>"

definition case_two_fallback :: "prize_info case_data" where
  "case_two_fallback =
     \<lparr> case_id = ''two_b'', case_name = ''Two B'', case_imageFilename = ''two.jpg'',
       priceTON = 2, prizes = map raw_prize [(''A'', 5 / 10), (''B'', 5 / 10)] \<rparr>"

definition floors_AB :: "string \<rightharpoonup> decimal" where
  "floors_AB = [''A'' \<mapsto> 10, ''B'' \<mapsto> 1]"

section \<open>Stored state\<close>

text \<open>
  The tables of the SQLAlchemy models, one record per row and one list per table in the
  order the queries see the rows. Float columns are \<^typ>\<open>real\<close>; the timestamp
  columns are not part of the state. \<open>next_item_id\<close> is the autoincrement counter of
  \<^verbatim>\<open>inventory_items.id\<close>.
\<close>

record user =
  user_id :: int
  username :: "string option"
  first_name :: "string option"
  last_name :: "string option"
  ton_balance :: real
  referral_code :: "string option"
  referred_by_id :: "int option"
  referral_earnings_pending :: real
  total_won_ton :: real

record nft =
  nft_id :: int
  nft_name :: string
  image_filename :: "string option"
  nft_floor_price :: real

record inventory_item =
  item_id :: int
  item_user_id :: int
  item_nft_id :: "int option"
  item_name_override :: "string option"
  item_image_override :: "string option"
  current_value :: real
  upgrade_multiplier :: real
  item_is_ton_prize :: bool

record promo_code =
  promo_id :: int
  code_text :: string
  activations_left :: int
  ton_amount :: real

record user_promo_code_redemption =
  redemption_user_id :: int
  redemption_promo_code_id :: int

record db =
  users :: "user list"
  nfts :: "nft list"
  inventory_items :: "inventory_item list"
  promo_codes :: "promo_code list"
  redemptions :: "user_promo_code_redemption list"
  next_item_id :: int

text \<open>The identity that \<^verbatim>\<open>validate_init_data\<close> returns.\<close>

record auth_user =
  auth_id :: int
  auth_username :: "string option"
  auth_first_name :: "string option"
  auth_last_name :: "string option"

text \<open>
  What a handler returns: an error with its HTTP status and message, or the success
  body of the endpoint. The created inventory rows stand for the dictionaries built
  from them.
\<close>

datatype response =
    Error nat string
  | TopupSuccess real
  | OpenCaseSuccess "inventory_item list" real
  | WithdrawSuccess "string option"
  | UpgradeSuccess inventory_item
  | UpgradeFailed
  | ConvertSuccess real
  | SellNoItems
  | SellSuccess nat real
  | ReferralEarningsSuccess real
  | NoEarnings
  | RedeemSuccess real real
  | AlreadyReferred
  | ReferralSuccess

subsection \<open>Queries and writes\<close>

text \<open>\<^verbatim>\<open>query(...).filter(...).first()\<close> is the first row that satisfies the filter.\<close>

definition get_user :: "int \<Rightarrow> db \<Rightarrow> user option" where
  "get_user uid d = find (\<lambda>u. user_id u = uid) (users d)"

definition get_item :: "int \<Rightarrow> int \<Rightarrow> db \<Rightarrow> inventory_item option" where
  "get_item iid uid d = find (\<lambda>i. item_id i = iid \<and> item_user_id i = uid) (inventory_items d)"

definition get_nft_by_name :: "string \<Rightarrow> db \<Rightarrow> nft option" where
  "get_nft_by_name n d = find (\<lambda>x. nft_name x = n) (nfts d)"

text \<open>
  An attribute assignment on a loaded row is written back at the flush as an
  \<^verbatim>\<open>UPDATE\<close> of the rows with its primary key, and \<^verbatim>\<open>db.delete\<close> as a
  \<^verbatim>\<open>DELETE\<close> of them. The handlers compute the new values from the row they loaded.
\<close>

definition update_user :: "int \<Rightarrow> (user \<Rightarrow> user) \<Rightarrow> db \<Rightarrow> db" where
  "update_user uid f d = d\<lparr>users := map (\<lambda>u. if user_id u = uid then f u else u) (users d)\<rparr>"

definition update_promo :: "int \<Rightarrow> (promo_code \<Rightarrow> promo_code) \<Rightarrow> db \<Rightarrow> db" where
  "update_promo pid f d =
     d\<lparr>promo_codes := map (\<lambda>p. if promo_id p = pid then f p else p) (promo_codes d)\<rparr>"

definition delete_item :: "int \<Rightarrow> db \<Rightarrow> db" where
  "delete_item iid d = d\<lparr>inventory_items := filter (\<lambda>i. item_id i \<noteq> iid) (inventory_items d)\<rparr>"

text \<open>\<^verbatim>\<open>db.add(item); db.flush()\<close>: the row gets the next id of the sequence.\<close>

definition add_item :: "inventory_item \<Rightarrow> db \<Rightarrow> inventory_item \<times> db" where
  "add_item it d =
     (let row = it\<lparr>item_id := next_item_id d\<rparr>
      in (row, d\<lparr>inventory_items := inventory_items d @ [row],
                  next_item_id := next_item_id d + 1\<rparr>))"

text \<open>Python truthiness of an optional string and of an optional integer.\<close>

definition falsy_str :: "string option \<Rightarrow> bool" where
  "falsy_str s = (case s of None \<Rightarrow> True | Some t \<Rightarrow> t = [])"

definition falsy_int :: "int option \<Rightarrow> bool" where
  "falsy_int i = (case i of None \<Rightarrow> True | Some n \<Rightarrow> n = 0)"

section \<open>Weighted sampling\<close>

text \<open>
  \<^verbatim>\<open>random.choices(population, weights=..., k=1)[0]\<close> of the Python standard library,
  after its CPython implementation: the running sums of the weights, their last element
  as total (an error on the empty list and on a total that is not positive), and a
  bisection for \<open>u * total\<close> between the positions 0 and \<open>n - 1\<close>, where \<open>u\<close> is the
  value of \<^verbatim>\<open>random()\<close> in \<open>[0, 1)\<close>. \<open>None\<close> is the exception.
\<close>

fun accumulate_from :: "real \<Rightarrow> real list \<Rightarrow> real list" where
  "accumulate_from acc [] = []"
| "accumulate_from acc (w # ws) = (acc + w) # accumulate_from (acc + w) ws"

function bisect_right :: "real list \<Rightarrow> real \<Rightarrow> nat \<Rightarrow> nat \<Rightarrow> nat" where
  "bisect_right a x lo hi =
     (if lo < hi
      then (let mid = (lo + hi) div 2
            in if x < a ! mid then bisect_right a x lo mid else bisect_right a x (mid + 1) hi)
      else lo)"
  by pat_completeness auto
termination
  by (relation "measure (\<lambda>(a, x, lo, hi). hi - lo)") auto

definition random_choices :: "'a list \<Rightarrow> real list \<Rightarrow> real \<Rightarrow> 'a option" where
  "random_choices population weights u =
     (let n = length population;
          cum_weights = accumulate_from 0 weights
      in if length cum_weights \<noteq> n then None
         else if cum_weights = [] then None
         else let total = last cum_weights
              in if total \<le> 0 then None
                 else Some (population ! bisect_right cum_weights (u * total) 0 (n - 1)))"

section \<open>Formatting integers\<close>

text \<open>The decimal digits of an integer, as \<^verbatim>\<open>str\<close> and the f-strings print it.\<close>

function str_nat :: "nat \<Rightarrow> string" where
  "str_nat n =
     (if n < 10 then [''0123456789'' ! n]
      else str_nat (n div 10) @ [''0123456789'' ! (n mod 10)])"
  by pat_completeness auto
termination
  by (relation "measure id") auto

declare str_nat.simps [simp del]


section \<open>Ledger handlers\<close>

text \<open>
  Every handler takes the result of \<^verbatim>\<open>validate_init_data\<close> (\<open>None\<close> when it
  failed), the fields read from the request body, the values drawn from the random
  generator, and the stored state; it returns the response and the state after it. A
  return before \<^verbatim>\<open>db.commit()\<close> and a raised exception leave the state as it was:
  the session is closed without a commit.
\<close>

subsection \<open>Top-up\<close>

text \<open>
  \<^verbatim>\<open>instant_topup_api\<close>. \<open>amount\<close> is \<^verbatim>\<open>float(data.get('amount', 0))\<close>, \<open>None\<close>
  when the conversion raises.
\<close>

definition instant_topup_api :: "auth_user option \<Rightarrow> real option \<Rightarrow> db \<Rightarrow> response \<times> db" where
  "instant_topup_api auth amount d =
     (case auth of
        None \<Rightarrow> (Error 401 ''Auth failed'', d)
      | Some a \<Rightarrow>
          (case amount of
             None \<Rightarrow> (Error 400 ''Invalid format.'', d)
           | Some amt \<Rightarrow>
               if \<not> (1 / 10 \<le> amt \<and> amt \<le> 10000) then (Error 400 ''Invalid amount.'', d)
               else (case get_user (auth_id a) d of
                       None \<Rightarrow> (Error 404 ''User not found'', d)
                     | Some user \<Rightarrow>
                         (TopupSuccess (ton_balance user + amt),
                          update_user (auth_id a) (\<lambda>u. u\<lparr>ton_balance := ton_balance user + amt\<rparr>) d))))"

subsection \<open>Opening a case\<close>

text \<open>
  The loop \<^verbatim>\<open>for _ in range(mult)\<close> of \<^verbatim>\<open>open_case_api\<close>, one random value per
  round: the chosen prize, the lookup of its NFT row, the new inventory row.
\<close>

fun draw_prizes ::
  "prize list \<Rightarrow> int \<Rightarrow> real list \<Rightarrow> db \<Rightarrow> (inventory_item list \<times> db) option" where
  "draw_prizes ps uid [] d = Some ([], d)"
| "draw_prizes ps uid (r # rs) d =
     (case random_choices ps (map probability ps) r of
        None \<Rightarrow> None
      | Some chosen \<Rightarrow>
          (let dbnft = get_nft_by_name (name chosen) d;
               (item, d1) = add_item
                  \<lparr> item_id = 0, item_user_id = uid,
                    item_nft_id = map_option nft_id dbnft,
                    item_name_override = Some (name chosen),
                    item_image_override = Some (imageFilename chosen),
                    current_value = floor_price chosen,
                    upgrade_multiplier = 1,
                    item_is_ton_prize = is_ton_prize chosen \<rparr> d
           in (case draw_prizes ps uid rs d1 of
                 None \<Rightarrow> None
               | Some (won, d2) \<Rightarrow> Some (item # won, d2))))"

text \<open>
  \<^verbatim>\<open>open_case_api\<close>. \<open>cases\<close> is the module's \<^verbatim>\<open>cases_data_backend\<close>, \<open>cid\<close> and
  \<open>mult\<close> are the fields \<^verbatim>\<open>case_id\<close> and \<^verbatim>\<open>multiplier\<close> of the request, and
  \<open>rnd k\<close> is the value of the generator in round \<open>k\<close>.
\<close>

definition open_case_api ::
  "prize case_data list \<Rightarrow> auth_user option \<Rightarrow> string option \<Rightarrow> int \<Rightarrow> (nat \<Rightarrow> real) \<Rightarrow> db
     \<Rightarrow> response \<times> db" where
  "open_case_api cases auth cid mult rnd d =
     (case auth of
        None \<Rightarrow> (Error 401 ''Auth failed'', d)
      | Some a \<Rightarrow>
          if falsy_str cid \<or> mult \<notin> {1, 2, 3} then (Error 400 ''Invalid request'', d)
          else (case get_user (auth_id a) d of
                  None \<Rightarrow> (Error 404 ''User not found'', d)
                | Some user \<Rightarrow>
                    (case find (\<lambda>c. Some (case_id c) = cid) cases of
                       None \<Rightarrow> (Error 404 ''Case not found'', d)
                     | Some tcase \<Rightarrow>
                         (let cost = priceTON tcase * of_int mult
                          in if ton_balance user < cost then (Error 400 ''Not enough TON'', d)
                             else
                               (let d1 = update_user (auth_id a)
                                           (\<lambda>u. u\<lparr>ton_balance := ton_balance user - cost\<rparr>) d
                                in (case draw_prizes (prizes tcase) (auth_id a)
                                            (map rnd [0 ..< nat mult]) d1 of
                                      None \<Rightarrow> (Error 500 ''Internal Server Error'', d)
                                    | Some (won_prizes, d2) \<Rightarrow>
                                        (OpenCaseSuccess won_prizes (ton_balance user - cost), d2)))))))"

subsection \<open>Withdrawing a gift\<close>

text \<open>
  The outcome of the POST to the fulfilment service, as the handler tells the outcomes
  apart: a 2xx answer; a request exception without a response (connection failure,
  timeout); an error status whose body is a JSON object (with its \<^verbatim>\<open>error\<close> entry, if
  any), is not JSON at all (with the status), or is JSON of another shape, on which
  \<^verbatim>\<open>.get\<close> raises.
\<close>

datatype ext_result =
    ExtOk
  | ExtNoResponse
  | ExtErrorObject "string option"
  | ExtErrorNotJson nat
  | ExtErrorOtherJson

record gift_payload =
  giftname :: "string option"
  receiverUsername :: string
  senderUsername :: string

definition WITHDRAWAL_SENDER_USERNAME :: string where
  "WITHDRAWAL_SENDER_USERNAME = ''pusikSupport''"

text \<open>\<^verbatim>\<open>item.nft.name if item.nft else item.item_name_override\<close>.\<close>

definition gift_name_of :: "inventory_item \<Rightarrow> db \<Rightarrow> string option" where
  "gift_name_of item d =
     (case item_nft_id item of
        None \<Rightarrow> item_name_override item
      | Some k \<Rightarrow> (case find (\<lambda>x. nft_id x = k) (nfts d) of
                    None \<Rightarrow> item_name_override item
                  | Some x \<Rightarrow> Some (nft_name x)))"

definition withdraw_gift_api ::
  "(gift_payload \<Rightarrow> ext_result) \<Rightarrow> auth_user option \<Rightarrow> int option \<Rightarrow> db \<Rightarrow> response \<times> db" where
  "withdraw_gift_api post auth inventory_item_id d =
     (case auth of
        None \<Rightarrow> (Error 401 ''Authentication failed'', d)
      | Some a \<Rightarrow>
          if falsy_str (auth_username a)
          then (Error 400 ''Your Telegram account needs a username.'', d)
          else if falsy_int inventory_item_id then (Error 400 ''inventory_item_id required.'', d)
          else (case get_item (the inventory_item_id) (auth_id a) d of
                  None \<Rightarrow> (Error 404 ''Item not found.'', d)
                | Some item \<Rightarrow>
                    if item_is_ton_prize item then (Error 400 ''Cannot withdraw TON prizes.'', d)
                    else
                      (let gift_name = gift_name_of item d;
                           payload = \<lparr> giftname = gift_name,
                                       receiverUsername = the (auth_username a),
                                       senderUsername = WITHDRAWAL_SENDER_USERNAME \<rparr>
                       in (case post payload of
                             ExtOk \<Rightarrow> (WithdrawSuccess gift_name, delete_item (item_id item) d)
                           | ExtNoResponse \<Rightarrow>
                               (Error 502 ''Withdrawal service is currently unavailable. Please try again later.'', d)
                           | ExtErrorObject detail \<Rightarrow>
                               (Error 502 (''Withdrawal service failed: '' @
                                  (case detail of None \<Rightarrow> ''Unknown API error'' | Some e \<Rightarrow> e)), d)
                           | ExtErrorNotJson status \<Rightarrow>
                               (Error 502 (''Withdrawal service returned an invalid response (Status ''
                                  @ str_nat status @ '').''), d)
                           | ExtErrorOtherJson \<Rightarrow>
                               (Error 500 ''An internal server error occurred during the withdrawal process.'', d)))))"

subsection \<open>Upgrade\<close>

text \<open>
  \<^verbatim>\<open>upgrade_item_v2_api\<close>. \<open>roll\<close> is the value of \<^verbatim>\<open>random.uniform(0, 100)\<close>.
\<close>

definition upgrade_item_v2_api ::
  "auth_user option \<Rightarrow> int option \<Rightarrow> string option \<Rightarrow> real \<Rightarrow> db \<Rightarrow> response \<times> db" where
  "upgrade_item_v2_api auth inventory_item_id desired_item_name roll d =
     (case auth of
        None \<Rightarrow> (Error 401 ''Auth failed'', d)
      | Some a \<Rightarrow>
          if falsy_int inventory_item_id \<or> falsy_str desired_item_name
          then (Error 400 ''Missing parameters.'', d)
          else
            (case (get_user (auth_id a) d,
                   get_item (the inventory_item_id) (auth_id a) d,
                   get_nft_by_name (the desired_item_name) d) of
               (Some user, Some item, Some desired_nft) \<Rightarrow>
                 if item_is_ton_prize item \<or> current_value item \<le> 0
                 then (Error 400 ''Invalid item for upgrade.'', d)
                 else
                   (let val_current = current_value item;
                        val_desired = nft_floor_price desired_nft
                    in if val_desired \<le> val_current
                       then (Error 400 ''Desired item must be more valuable.'', d)
                       else if roll < upgrade_chance val_current val_desired
                       then
                         (let d1 = update_user (auth_id a)
                                     (\<lambda>u. u\<lparr>total_won_ton := total_won_ton user + (val_desired - val_current)\<rparr>) d;
                              d2 = delete_item (item_id item) d1;
                              (new_item, d3) = add_item
                                 \<lparr> item_id = 0, item_user_id = auth_id a,
                                   item_nft_id = Some (nft_id desired_nft),
                                   item_name_override = Some (nft_name desired_nft),
                                   item_image_override = image_filename desired_nft,
                                   current_value = val_desired,
                                   upgrade_multiplier = 1,
                                   item_is_ton_prize = False \<rparr> d2
                          in (UpgradeSuccess new_item, d3))
                       else
                         (let d1 = update_user (auth_id a)
                                     (\<lambda>u. u\<lparr>total_won_ton := total_won_ton user - val_current\<rparr>) d
                          in (UpgradeFailed, delete_item (item_id item) d1)))
             | _ \<Rightarrow> (Error 404 ''Invalid data.'', d)))"

subsection \<open>Conversion and sale\<close>

definition convert_to_ton_api :: "auth_user option \<Rightarrow> int option \<Rightarrow> db \<Rightarrow> response \<times> db" where
  "convert_to_ton_api auth inventory_item_id d =
     (case auth of
        None \<Rightarrow> (Error 401 ''Auth failed'', d)
      | Some a \<Rightarrow>
          if falsy_int inventory_item_id then (Error 400 ''inventory_item_id required'', d)
          else
            (case (get_user (auth_id a) d, get_item (the inventory_item_id) (auth_id a) d) of
               (Some user, Some item) \<Rightarrow>
                 if item_is_ton_prize item then (Error 400 ''Cannot convert TON'', d)
                 else
                   (let val = current_value item;
                        d1 = update_user (auth_id a)
                               (\<lambda>u. u\<lparr>ton_balance := ton_balance user + val,
                                       total_won_ton := max 0 (total_won_ton user - val)\<rparr>) d
                    in (ConvertSuccess (ton_balance user + val), delete_item (item_id item) d1))
             | _ \<Rightarrow> (Error 404 ''Not found'', d)))"

definition sell_all_items_api :: "auth_user option \<Rightarrow> db \<Rightarrow> response \<times> db" where
  "sell_all_items_api auth d =
     (case auth of
        None \<Rightarrow> (Error 401 ''Auth failed'', d)
      | Some a \<Rightarrow>
          (case get_user (auth_id a) d of
             None \<Rightarrow> (Error 404 ''User not found'', d)
           | Some user \<Rightarrow>
               (let items_to_sell = filter (\<lambda>i. item_user_id i = auth_id a \<and> \<not> item_is_ton_prize i)
                                      (inventory_items d)
                in if items_to_sell = [] then (SellNoItems, d)
                   else
                     (let total_val = sum_list (map current_value items_to_sell);
                          d1 = update_user (auth_id a)
                                 (\<lambda>u. u\<lparr>ton_balance := ton_balance user + total_val,
                                         total_won_ton := max 0 (total_won_ton user - total_val)\<rparr>) d;
                          d2 = d1\<lparr>inventory_items :=
                                     filter (\<lambda>i. item_id i \<notin> set (map item_id items_to_sell))
                                       (inventory_items d1)\<rparr>
                      in (SellSuccess (length items_to_sell) (ton_balance user + total_val), d2)))))"

subsection \<open>Referral earnings and promo codes\<close>

definition withdraw_referral_earnings_api :: "auth_user option \<Rightarrow> db \<Rightarrow> response \<times> db" where
  "withdraw_referral_earnings_api auth d =
     (case auth of
        None \<Rightarrow> (Error 401 ''Auth failed'', d)
      | Some a \<Rightarrow>
          (case get_user (auth_id a) d of
             None \<Rightarrow> (Error 404 ''User not found'', d)
           | Some user \<Rightarrow>
               if referral_earnings_pending user > 0
               then (ReferralEarningsSuccess (ton_balance user + referral_earnings_pending user),
                     update_user (auth_id a)
                       (\<lambda>u. u\<lparr>ton_balance := ton_balance user + referral_earnings_pending user,
                               referral_earnings_pending := 0\<rparr>) d)
               else (NoEarnings, d)))"

text \<open>
  \<^verbatim>\<open>redeem_promocode_api\<close>. \<open>code\<close> is the field \<^verbatim>\<open>promocode_text\<close> after
  \<^verbatim>\<open>.strip()\<close>.
\<close>

definition redeem_promocode_api :: "auth_user option \<Rightarrow> string \<Rightarrow> db \<Rightarrow> response \<times> db" where
  "redeem_promocode_api auth code d =
     (case auth of
        None \<Rightarrow> (Error 401 ''Auth failed'', d)
      | Some a \<Rightarrow>
          if code = [] then (Error 400 ''Code required.'', d)
          else
            (case (get_user (auth_id a) d, find (\<lambda>p. code_text p = code) (promo_codes d)) of
               (Some user, Some promo) \<Rightarrow>
                 if activations_left promo \<noteq> - 1 \<and> activations_left promo \<le> 0
                 then (Error 400 ''Code expired.'', d)
                 else if find (\<lambda>r. redemption_user_id r = auth_id a
                                   \<and> redemption_promo_code_id r = promo_id promo)
                           (redemptions d) \<noteq> None
                 then (Error 400 ''Already redeemed.'', d)
                 else
                   (let d1 = (if activations_left promo \<noteq> - 1
                              then update_promo (promo_id promo)
                                     (\<lambda>p. p\<lparr>activations_left := activations_left promo - 1\<rparr>) d
                              else d);
                        d2 = update_user (auth_id a)
                               (\<lambda>u. u\<lparr>ton_balance := ton_balance user + ton_amount promo\<rparr>) d1;
                        d3 = d2\<lparr>redemptions := redemptions d2 @
                                  [\<lparr> redemption_user_id = auth_id a,
                                     redemption_promo_code_id = promo_id promo \<rparr>]\<rparr>
                    in (RedeemSuccess (ton_amount promo) (ton_balance user + ton_amount promo), d3))
             | _ \<Rightarrow> (Error 404 ''Invalid data.'', d)))"

subsection \<open>Referral registration\<close>



subsection \<open>The ledger operations as one step\<close>

datatype ledger_op =
    Topup "real option"
  | OpenCase "string option" int "nat \<Rightarrow> real"
  | Upgrade "int option" "string option" real
  | ConvertToTon "int option"
  | SellAll
  | RedeemPromo string
  | WithdrawReferralEarnings
  | WithdrawGift "gift_payload \<Rightarrow> ext_result" "int option"

fun ledger_step ::
  "prize case_data list \<Rightarrow> auth_user option \<Rightarrow> ledger_op \<Rightarrow> db \<Rightarrow> response \<times> db" where
  "ledger_step cases auth (Topup amount) d = instant_topup_api auth amount d"
| "ledger_step cases auth (OpenCase cid mult rnd) d = open_case_api cases auth cid mult rnd d"
| "ledger_step cases auth (Upgrade iid wanted roll) d = upgrade_item_v2_api auth iid wanted roll d"
| "ledger_step cases auth (ConvertToTon iid) d = convert_to_ton_api auth iid d"
| "ledger_step cases auth SellAll d = sell_all_items_api auth d"
| "ledger_step cases auth (RedeemPromo code) d = redeem_promocode_api auth code d"
| "ledger_step cases auth WithdrawReferralEarnings d = withdraw_referral_earnings_api auth d"
| "ledger_step cases auth (WithdrawGift post iid) d = withdraw_gift_api post auth iid d"

section \<open>Validation of the signed payload\<close>

text \<open>
  \<^verbatim>\<open>validate_init_data\<close> calls the standard library for the cryptography and the
  parsing. These functions are parameters of the model: \<open>hmac_sha256 key msg\<close> is the
  digest of \<^verbatim>\<open>hmac.new(key, msg, hashlib.sha256)\<close>, \<open>hexdigest\<close> its hexadecimal
  form, \<open>parse_qs\<close> the dictionary of \<^verbatim>\<open>urllib.parse.parse_qs\<close> as the list of
  its keys, each with the first of its values (the only one the function reads),
  \<open>unquote\<close> is \<^verbatim>\<open>urllib.parse.unquote\<close>, and \<open>decode_user\<close> is \<^verbatim>\<open>json.loads\<close>
  followed by \<^verbatim>\<open>user_data['id'] = int(user_data['id'])\<close>, \<open>None\<close> when either raises.
\<close>

record lib =
  hmac_sha256 :: "string \<Rightarrow> string \<Rightarrow> string"
  hexdigest :: "string \<Rightarrow> string"
  parse_qs :: "string \<Rightarrow> (string \<times> string) list"
  unquote :: "string \<Rightarrow> string"
  decode_user :: "string \<Rightarrow> auth_user option"

text \<open>\<^verbatim>\<open>"\n".join(lines)\<close>.\<close>

fun join_lines :: "string list \<Rightarrow> string" where
  "join_lines [] = []"
| "join_lines [l] = l"
| "join_lines (l # ls) = l @ [CHR 0x0A] @ join_lines ls"

text \<open>
  The body of the function from the parsed fields on: the check string is the sorted
  list of the lines \<open>key=value\<close> of all fields but \<^verbatim>\<open>hash\<close>, joined by newlines.
\<close>

definition check_string :: "(string \<times> string) list \<Rightarrow> string" where
  "check_string data =
     join_lines (sort (map (\<lambda>(k, v). k @ ''='' @ v) (filter (\<lambda>(k, v). k \<noteq> ''hash'') data)))"

definition validate_fields :: "lib \<Rightarrow> (string \<times> string) list \<Rightarrow> string \<Rightarrow> auth_user option" where
  "validate_fields L data token =
     (case map_of data ''hash'' of
        None \<Rightarrow> None
      | Some hash_val \<Rightarrow>
          (let secret = hmac_sha256 L ''WebAppData'' token
           in if hexdigest L (hmac_sha256 L secret (check_string data)) = hash_val
              then (case map_of (filter (\<lambda>(k, v). k \<noteq> ''hash'') data) ''user'' of
                      None \<Rightarrow> None
                    | Some u \<Rightarrow> decode_user L (unquote L u))
              else None))"

definition validate_init_data :: "lib \<Rightarrow> string option \<Rightarrow> string option \<Rightarrow> auth_user option" where
  "validate_init_data L init_data_str token =
     (if falsy_str init_data_str \<or> falsy_str token then None
      else validate_fields L (parse_qs L (the init_data_str)) (the token))"

text \<open>
  The acceptance condition in the words of the specification: the hexadecimal
  HMAC-SHA256 of the sorted \<open>key=value\<close> lines of all fields but the signature, keyed
  by the HMAC-SHA256 of the token under the key \<^verbatim>\<open>WebAppData\<close>, equals the supplied
  signature.
\<close>

definition spec_signature_matches :: "lib \<Rightarrow> (string \<times> string) list \<Rightarrow> string \<Rightarrow> bool" where
  "spec_signature_matches L data token =
     (case map_of data ''hash'' of
        None \<Rightarrow> False
      | Some signature \<Rightarrow>
          hexdigest L (hmac_sha256 L (hmac_sha256 L ''WebAppData'' token)
            (join_lines (sort (map (\<lambda>(k, v). k @ ''='' @ v)
               (filter (\<lambda>(k, v). k \<noteq> ''hash'') data))))) = signature)"

section \<open>Predicates of the statements\<close>

text \<open>
  An inventory row is drawn from a table when it belongs to the account and carries the
  name, image, valuation and currency flag of one of the table's prizes.
\<close>

definition drawn_from :: "prize list \<Rightarrow> int \<Rightarrow> inventory_item \<Rightarrow> bool" where
  "drawn_from ps uid it =
     (\<exists>p \<in> set ps. item_user_id it = uid
        \<and> item_name_override it = Some (name p)
        \<and> item_image_override it = Some (imageFilename p)
        \<and> current_value it = floor_price p
        \<and> item_is_ton_prize it = is_ton_prize p)"

text \<open>
  The inventory row that one round of \<^verbatim>\<open>open_case_api\<close> creates for a prize: the
  account, the NFT row of the prize's name (if there is one), the name, image, valuation
  and currency flag of the prize, under the next id of the sequence.
\<close>

definition prize_row :: "int \<Rightarrow> prize \<Rightarrow> int \<Rightarrow> nft list \<Rightarrow> inventory_item" where
  "prize_row uid p iid table =
     \<lparr> item_id = iid, item_user_id = uid,
       item_nft_id = map_option nft_id (find (\<lambda>x. nft_name x = name p) table),
       item_name_override = Some (name p),
       item_image_override = Some (imageFilename p),
       current_value = floor_price p,
       upgrade_multiplier = 1,
       item_is_ton_prize = is_ton_prize p \<rparr>"

text \<open>
  The position that a random value \<open>u\<close> selects in a list of weights: the position whose
  share of the cumulative weights contains \<open>u\<close> times the total weight.
\<close>

definition weight_interval :: "real list \<Rightarrow> nat \<Rightarrow> real \<Rightarrow> bool" where
  "weight_interval ws j u =
     (j < length ws \<and> sum_list (take j ws) \<le> u * sum_list ws
        \<and> u * sum_list ws < sum_list (take (Suc j) ws))"

text \<open>No account has a negative balance.\<close>

definition balances_ok :: "db \<Rightarrow> bool" where
  "balances_ok d = list_all (\<lambda>u. 0 \<le> ton_balance u) (users d)"

section \<open>Example data\<close>

text \<open>
  One account with one inventory item, one NFT, one promo code and a case of two
  prizes, on which the handlers are evaluated below.
\<close>

definition example_auth :: auth_user where
  "example_auth = \<lparr> auth_id = 1, auth_username = Some ''alice'',
                     auth_first_name = Some ''Alice'', auth_last_name = None \<rparr>"

definition example_user :: "real \<Rightarrow> real \<Rightarrow> user" where
  "example_user balance won =
     \<lparr> user_id = 1, username = Some ''alice'', first_name = Some ''Alice'', last_name = None,
       ton_balance = balance, referral_code = Some ''ref_1_1234'', referred_by_id = None,
       referral_earnings_pending = 0, total_won_ton = won \<rparr>"

definition example_promo :: "int \<Rightarrow> real \<Rightarrow> promo_code" where
  "example_promo left amount =
     \<lparr> promo_id = 1, code_text = ''WELCOME'', activations_left = left, ton_amount = amount \<rparr>"

definition example_item :: inventory_item where
  "example_item =
     \<lparr> item_id = 3, item_user_id = 1, item_nft_id = None, item_name_override = Some ''Skebob'',
       item_image_override = None, current_value = 10, upgrade_multiplier = 1,
       item_is_ton_prize = False \<rparr>"

definition example_nft :: nft where
  "example_nft = \<lparr> nft_id = 7, nft_name = ''Toy Bear'', image_filename = Some ''toy.png'',
                    nft_floor_price = 20 \<rparr>"

definition example_db :: "real \<Rightarrow> promo_code \<Rightarrow> db" where
  "example_db balance promo =
     \<lparr> users = [example_user balance 0], nfts = [example_nft], inventory_items = [example_item],
       promo_codes = [promo], redemptions = [], next_item_id = 4 \<rparr>"

definition example_cases :: "prize case_data list" where
  "example_cases =
     [\<lparr> case_id = ''two_a'', case_name = ''Two A'', case_imageFilename = ''two.jpg'',
        priceTON = 2,
        prizes = [\<lparr> name = ''A'', probability = 24 / 100, floor_price = 10,
                     imageFilename = ''A.png'', is_ton_prize = False \<rparr>,
                  \<lparr> name = ''B'', probability = 76 / 100, floor_price = 1,
                     imageFilename = ''B.png'', is_ton_prize = False \<rparr>] \<rparr>]"

text \<open>
  The inventory row of a prize of the example case, and the values of the generator in
  the rounds of the example: one tenth in the first round, one half afterwards.
\<close>

definition example_row :: "string \<Rightarrow> real \<Rightarrow> int \<Rightarrow> inventory_item" where
  "example_row n v k =
     \<lparr> item_id = k, item_user_id = 1, item_nft_id = None, item_name_override = Some n,
       item_image_override = Some (n @ ''.png''), current_value = v, upgrade_multiplier = 1,
       item_is_ton_prize = False \<rparr>"

definition example_rnd :: "nat \<Rightarrow> real" where
  "example_rnd k = (if k = 0 then 1 / 10 else 1 / 2)"

text \<open>
  A stand-in for the library functions of the validation, on which it can be evaluated:
  the digest is the key and the message joined by a bar, the hexadecimal form is the
  digest itself, and one query string is parsed.
\<close>

definition toy_lib :: lib where
  "toy_lib =
     \<lparr> hmac_sha256 = (\<lambda>key msg. key @ ''|'' @ msg),
       hexdigest = (\<lambda>digest. digest),
       parse_qs = (\<lambda>s. if s = ''auth_date=0&user=u1&hash=WebAppData|secret|auth_date=0\<newline>user=u1''
                         then [(''auth_date'', ''0''), (''user'', ''u1''),
                               (''hash'', ''WebAppData|secret|auth_date=0\<newline>user=u1'')]
                         else []),
       unquote = (\<lambda>s. s),
       decode_user = (\<lambda>s. if s = ''u1'' then Some example_auth else None) \<rparr>"

definition toy_init_data :: string where
  "toy_init_data = ''auth_date=0&user=u1&hash=WebAppData|secret|auth_date=0\<newline>user=u1''"

section \<open>Properties of the upgrade chance\<close>

text \<open>
  C3. For every current value above zero and every desired value above it, the chance
  computed by the upgrade handler is the specification's
  \<open>clamp(maxChance * riskFactor^(x - 1), minChance, maxChance)\<close> with \<open>x\<close> the ratio
  of the two values and the constants 75, 3 and 0.6; it lies between 3 and 75; and for
  the values 10 and 20 it is exactly 45.
\<close>

theorem upgrade_chance_matches_spec:
  assumes "0 < currentValue" and "currentValue < desiredValue"
  shows "upgrade_chance currentValue desiredValue =
           spec_successChance currentValue desiredValue 75 3 (6 / 10)
         \<and> 3 \<le> upgrade_chance currentValue desiredValue
         \<and> upgrade_chance currentValue desiredValue \<le> 75
         \<and> upgrade_chance 10 20 = 45"
proof -
  have ex: "upgrade_chance 10 20 = 45"
    by (simp add: upgrade_chance_def UPGRADE_MAX_CHANCE_def UPGRADE_MIN_CHANCE_def
        UPGRADE_RISK_FACTOR_def)
  show ?thesis
    unfolding ex
    by (auto simp add: upgrade_chance_def spec_successChance_def spec_clamp_def Let_def
        UPGRADE_MAX_CHANCE_def UPGRADE_MIN_CHANCE_def UPGRADE_RISK_FACTOR_def min_def max_def)
qed

theorem upgrade_chance_matches_spec_witness:
  "(0::real) < 10 \<and> (10::real) < 20
   \<and> upgrade_chance 10 20 = spec_successChance 10 20 75 3 (6 / 10)
   \<and> 3 \<le> upgrade_chance 10 20 \<and> upgrade_chance 10 20 \<le> 75
   \<and> upgrade_chance 10 20 = 45"
  using upgrade_chance_matches_spec [of 10 20] by simp

section \<open>Properties of the calibration\<close>

subsection \<open>The final correction and the shape of the results\<close>

lemma FLOAT_1E_7_bounds: "0 < FLOAT_1E_7" "FLOAT_1E_7 \<le> 1 / 10 ^ 7"
  by (simp_all add: FLOAT_1E_7_def)

lemma final_correction_sum:
  assumes "ps \<noteq> []"
  shows "\<exists>qs. final_correction ps = Some qs \<and> length qs = length ps
              \<and> \<bar>sum_probs qs - 1\<bar> \<le> FLOAT_1E_7"
proof (cases "\<bar>sum_probs ps - 1\<bar> > FLOAT_1E_7")
  case False
  then show ?thesis by (simp add: final_correction_def)
next
  case True
  from assms obtain p0 rest where ps: "ps = p0 # rest" by (cases ps) auto
  have "final_correction ps = Some (p0\<lparr>probability := probability p0 + (1 - sum_probs ps)\<rparr> # rest)"
    using True by (simp add: final_correction_def ps)
  moreover have "sum_probs (p0\<lparr>probability := probability p0 + (1 - sum_probs ps)\<rparr> # rest) = 1"
    by (simp add: sum_probs_def ps)
  ultimately show ?thesis using FLOAT_1E_7_bounds(1) by (simp add: ps)
qed

lemma final_correction_residual:
  assumes "ps \<noteq> []" and "\<bar>sum_probs ps - 1\<bar> > FLOAT_1E_7"
  shows "\<exists>qs. final_correction ps = Some qs \<and> sum_probs qs = 1 \<and> tl qs = tl ps
      \<and> hd qs = (hd ps)\<lparr>probability := probability (hd ps) + (1 - sum_probs ps)\<rparr>"
proof -
  from assms obtain p0 rest where ps: "ps = p0 # rest" by (cases ps) auto
  have "final_correction ps = Some (p0\<lparr>probability := probability p0 + (1 - sum_probs ps)\<rparr> # rest)"
    using assms(2) by (simp add: final_correction_def ps)
  moreover have "sum_probs (p0\<lparr>probability := probability p0 + (1 - sum_probs ps)\<rparr> # rest) = 1"
    by (simp add: sum_probs_def ps)
  ultimately show ?thesis by (simp add: ps)
qed

lemma length_build_prizes [simp]:
  "length (build_prizes g c fp) = length (prizes c)"
  by (simp add: build_prizes_def)

lemma fallback_result:
  "\<exists>t. calculate_rtp_probabilities_proportional_fallback g c fp = Some t
       \<and> (t \<noteq> [] \<longrightarrow> length t = length (prizes c) \<and> \<bar>sum_probs t - 1\<bar> \<le> FLOAT_1E_7)"
proof -
  let ?ps = "build_prizes g c fp"
  let ?ev = "sum_list (map (\<lambda>p. floor_price p * probability p) ?ps)"
  show ?thesis
  proof (cases "?ev \<le> 0")
    case True
    then show ?thesis
      by (simp add: calculate_rtp_probabilities_proportional_fallback_def Let_def)
  next
    case False
    then have ne: "?ps \<noteq> []" by auto
    let ?ps1 = "map (\<lambda>p. p\<lparr>probability := probability p * (priceTON c * RTP_TARGET / ?ev)\<rparr>) ?ps"
    show ?thesis
    proof (cases "sum_probs ?ps1 \<le> 0")
      case True
      with False show ?thesis
        by (simp add: calculate_rtp_probabilities_proportional_fallback_def Let_def)
    next
      case F2: False
      let ?ps2 = "map (\<lambda>p. p\<lparr>probability := probability p / sum_probs ?ps1\<rparr>) ?ps1"
      have eq: "calculate_rtp_probabilities_proportional_fallback g c fp = final_correction ?ps2"
        using False F2 by (simp add: calculate_rtp_probabilities_proportional_fallback_def Let_def)
      have "?ps2 \<noteq> []" using ne by simp
      from final_correction_sum [OF this] show ?thesis
        unfolding eq by auto
    qed
  qed
qed

lemma sum_list_pos_real:
  fixes xs :: "real list"
  assumes "\<forall>x \<in> set xs. 0 \<le> x" and "\<exists>x \<in> set xs. 0 < x"
  shows "0 < sum_list xs"
  using assms
proof (induction xs)
  case Nil
  then show ?case by simp
next
  case (Cons a xs)
  have nn: "0 \<le> sum_list xs" using Cons.prems(1) by (simp add: sum_list_nonneg)
  show ?case
  proof (cases "0 < a")
    case True
    with nn show ?thesis by simp
  next
    case False
    with Cons.prems have "\<exists>x \<in> set xs. 0 < x" by auto
    with Cons.IH Cons.prems(1) have "0 < sum_list xs" by simp
    moreover have "0 \<le> a" using Cons.prems(1) by simp
    ultimately show ?thesis by simp
  qed
qed

lemma sum_probs_scaled:
  "sum_probs (map (\<lambda>p. p\<lparr>probability := probability p * k\<rparr>) ps) = sum_probs ps * k"
  by (induction ps) (simp_all add: sum_probs_def algebra_simps)

lemma length_anchor_filler [simp]:
  "length (anchor_filler f r n ps) = length ps"
  by (simp add: anchor_filler_def Let_def)

lemma primary_cases:
  "((build_prizes g c fp = [] \<or> (\<forall>p \<in> set (build_prizes g c fp). floor_price p = 0))
      \<and> calculate_rtp_probabilities g c fp = Some [])
   \<or> calculate_rtp_probabilities g c fp = calculate_rtp_probabilities_proportional_fallback g c fp
   \<or> (\<exists>qs. length qs = length (prizes c) \<and> prizes c \<noteq> []
          \<and> calculate_rtp_probabilities g c fp = final_correction qs)"
proof (cases "build_prizes g c fp = [] \<or> (\<forall>p \<in> set (build_prizes g c fp). floor_price p = 0)")
  case True
  then show ?thesis by (simp add: calculate_rtp_probabilities_def Let_def)
next
  case False
  then have ne: "prizes c \<noteq> []" by (auto simp: build_prizes_def)
  let ?ps = "build_prizes g c fp"
  show ?thesis
  proof (cases "filler_index ?ps")
    case None
    with False show ?thesis by (simp add: calculate_rtp_probabilities_def Let_def)
  next
    case (Some f)
    let ?req = "(priceTON c * RTP_TARGET
                  - sum_list (map (\<lambda>p. floor_price p * probability p) (non_filler f ?ps)))
                / floor_price (?ps ! f)"
    show ?thesis
    proof (cases "floor_price (?ps ! f) \<le> 0 \<or> \<not> (0 \<le> ?req \<and> ?req \<le> 1)")
      case True
      with False Some show ?thesis
        by (auto simp add: calculate_rtp_probabilities_def Let_def)
    next
      case F3: False
      let ?qs = "anchor_filler f ?req (sum_list (map probability (non_filler f ?ps))) ?ps"
      have nt: "(?ps = [] \<or> (\<forall>p \<in> set ?ps. floor_price p = 0)) = False"
        using False by blast
      have "calculate_rtp_probabilities g c fp = final_correction ?qs"
        using F3 by (auto simp add: calculate_rtp_probabilities_def Let_def nt Some)
      moreover have "length ?qs = length (prizes c)" by simp
      ultimately show ?thesis using ne by blast
    qed
  qed
qed

lemma fallback_nonempty:
  assumes price: "0 < priceTON c"
    and weights: "\<forall>p \<in> set (prizes c). 0 < pi_probability p"
    and floors: "\<forall>v \<in> ran fp. 0 \<le> v"
    and pos: "\<exists>p \<in> set (prizes c). \<exists>v. fp (pi_name p) = Some v \<and> 0 < v"
  shows "calculate_rtp_probabilities_proportional_fallback g c fp \<noteq> Some []"
proof -
  let ?ps = "build_prizes g c fp"
  let ?ev = "sum_list (map (\<lambda>p. floor_price p * probability p) ?ps)"
  have fl: "\<forall>p \<in> set ?ps. 0 \<le> floor_price p"
    using floors by (auto simp: build_prizes_def ran_def split: option.splits)
  have pr: "\<forall>p \<in> set ?ps. 0 < probability p"
    using weights by (auto simp: build_prizes_def)
  from pos obtain q v where q: "q \<in> set (prizes c)" "fp (pi_name q) = Some v" "0 < v" by auto
  have "\<exists>p \<in> set ?ps. 0 < floor_price p"
    unfolding build_prizes_def using q by (auto intro!: bexI [of _ q])
  then obtain p where p: "p \<in> set ?ps" "0 < floor_price p" by auto
  have ev: "0 < ?ev"
  proof (rule sum_list_pos_real)
    show "\<forall>x\<in>set (map (\<lambda>p. floor_price p * probability p) ?ps). 0 \<le> x"
      using fl pr by (auto simp: less_imp_le)
    show "\<exists>x\<in>set (map (\<lambda>p. floor_price p * probability p) ?ps). 0 < x"
      using p pr by (auto intro!: bexI [of _ p])
  qed
  have sp: "0 < sum_probs ?ps"
    unfolding sum_probs_def
  proof (rule sum_list_pos_real)
    show "\<forall>x\<in>set (map probability ?ps). 0 \<le> x" using pr by (auto simp: less_imp_le)
    show "\<exists>x\<in>set (map probability ?ps). 0 < x" using p pr by auto
  qed
  have sc: "0 < priceTON c * RTP_TARGET / ?ev"
    using price ev by (simp add: RTP_TARGET_def)
  let ?ps1 = "map (\<lambda>p. p\<lparr>probability := probability p * (priceTON c * RTP_TARGET / ?ev)\<rparr>) ?ps"
  have "0 < sum_probs ?ps * (priceTON c * RTP_TARGET / ?ev)"
    using sp sc by (rule mult_pos_pos)
  then have tp: "0 < sum_probs ?ps1"
    by (simp only: sum_probs_scaled)
  let ?ps2 = "map (\<lambda>p. p\<lparr>probability := probability p / sum_probs ?ps1\<rparr>) ?ps1"
  have eq: "calculate_rtp_probabilities_proportional_fallback g c fp = final_correction ?ps2"
    using ev tp by (simp add: calculate_rtp_probabilities_proportional_fallback_def Let_def)
  have "prizes c \<noteq> []" using q by auto
  then have "?ps2 \<noteq> []" by (simp add: build_prizes_def)
  from final_correction_sum [OF this] \<open>prizes c \<noteq> []\<close> show ?thesis
    unfolding eq by auto
qed

lemma primary_nonempty:
  assumes price: "0 < priceTON c"
    and weights: "\<forall>p \<in> set (prizes c). 0 < pi_probability p"
    and floors: "\<forall>v \<in> ran fp. 0 \<le> v"
    and pos: "\<exists>p \<in> set (prizes c). \<exists>v. fp (pi_name p) = Some v \<and> 0 < v"
  shows "calculate_rtp_probabilities g c fp \<noteq> Some []"
proof -
  from pos obtain q v where q: "q \<in> set (prizes c)" "fp (pi_name q) = Some v" "0 < v" by auto
  have "\<exists>p \<in> set (build_prizes g c fp). 0 < floor_price p"
    unfolding build_prizes_def using q by (auto intro!: bexI [of _ q])
  then obtain p where "p \<in> set (build_prizes g c fp)" "floor_price p \<noteq> 0" by force
  then have A: "\<not> (build_prizes g c fp = [] \<or> (\<forall>p \<in> set (build_prizes g c fp). floor_price p = 0))"
    by auto
  from primary_cases [of g c fp] A
  consider "calculate_rtp_probabilities g c fp = calculate_rtp_probabilities_proportional_fallback g c fp"
    | qs where "length qs = length (prizes c)" "prizes c \<noteq> []"
          "calculate_rtp_probabilities g c fp = final_correction qs"
    by blast
  then show ?thesis
  proof cases
    case 1
    then show ?thesis using fallback_nonempty [OF assms, of g] by simp
  next
    case 2
    then have "qs \<noteq> []" by auto
    from final_correction_sum [OF this] 2 show ?thesis by auto
  qed
qed


lemma primary_result:
  "\<exists>t. calculate_rtp_probabilities g c fp = Some t
       \<and> (t \<noteq> [] \<longrightarrow> length t = length (prizes c) \<and> \<bar>sum_probs t - 1\<bar> \<le> FLOAT_1E_7)"
proof -
  from primary_cases [of g c fp]
  consider "calculate_rtp_probabilities g c fp = Some []"
    | "calculate_rtp_probabilities g c fp = calculate_rtp_probabilities_proportional_fallback g c fp"
    | qs where "length qs = length (prizes c)" "prizes c \<noteq> []"
          "calculate_rtp_probabilities g c fp = final_correction qs"
    by blast
  then show ?thesis
  proof cases
    case 1
    then show ?thesis by simp
  next
    case 2
    then show ?thesis using fallback_result [of g c fp] by simp
  next
    case 3
    then have "qs \<noteq> []" by auto
    from final_correction_sum [OF this] 3 show ?thesis by auto
  qed
qed



subsection \<open>Probabilities sum to one\<close>

text \<open>
  C2. For a case definition within the data model (positive price, positive raw weights,
  non-negative valuations) with at least one prize of positive floor value, both the
  calibrator and the proportional fallback return a non-empty table whose probabilities
  sum to 1 within \<open>10\<^sup>-\<^sup>7\<close>; and whenever the sum before the final correction is
  further than the threshold from 1, the correction adds the residual to the first prize
  only and the sum becomes exactly 1.
\<close>

theorem calibrated_probabilities_sum_to_one:
  assumes price: "0 < priceTON c"
    and weights: "\<forall>p \<in> set (prizes c). 0 < pi_probability p"
    and floors: "\<forall>v \<in> ran fp. 0 \<le> v"
    and pos: "\<exists>p \<in> set (prizes c). \<exists>v. fp (pi_name p) = Some v \<and> 0 < v"
  shows "(\<exists>t. calculate_rtp_probabilities g c fp = Some t \<and> t \<noteq> []
              \<and> \<bar>sum_probs t - 1\<bar> \<le> 1 / 10 ^ 7)
       \<and> (\<exists>t. calculate_rtp_probabilities_proportional_fallback g c fp = Some t \<and> t \<noteq> []
              \<and> \<bar>sum_probs t - 1\<bar> \<le> 1 / 10 ^ 7)
       \<and> (\<forall>ps. ps \<noteq> [] \<and> \<bar>sum_probs ps - 1\<bar> > FLOAT_1E_7 \<longrightarrow>
              (\<exists>qs. final_correction ps = Some qs \<and> sum_probs qs = 1 \<and> tl qs = tl ps
                 \<and> hd qs = (hd ps)\<lparr>probability := probability (hd ps) + (1 - sum_probs ps)\<rparr>))"
proof (intro conjI)
  from primary_result [of g c fp] primary_nonempty [OF assms, of g] FLOAT_1E_7_bounds(2)
  show "\<exists>t. calculate_rtp_probabilities g c fp = Some t \<and> t \<noteq> []
              \<and> \<bar>sum_probs t - 1\<bar> \<le> 1 / 10 ^ 7"
    by fastforce
  from fallback_result [of g c fp] fallback_nonempty [OF assms, of g] FLOAT_1E_7_bounds(2)
  show "\<exists>t. calculate_rtp_probabilities_proportional_fallback g c fp = Some t \<and> t \<noteq> []
              \<and> \<bar>sum_probs t - 1\<bar> \<le> 1 / 10 ^ 7"
    by fastforce
  show "\<forall>ps. ps \<noteq> [] \<and> \<bar>sum_probs ps - 1\<bar> > FLOAT_1E_7 \<longrightarrow>
              (\<exists>qs. final_correction ps = Some qs \<and> sum_probs qs = 1 \<and> tl qs = tl ps
                 \<and> hd qs = (hd ps)\<lparr>probability := probability (hd ps) + (1 - sum_probs ps)\<rparr>)"
    using final_correction_residual by blast
qed

theorem calibrated_probabilities_sum_to_one_witness:
  "0 < priceTON case_single
   \<and> list_all (\<lambda>p. 0 < pi_probability p) (prizes case_single)
   \<and> ran floors_AB = {1, 10}
   \<and> (\<exists>p. p \<in> set (prizes case_single) \<and> (\<exists>v. floors_AB (pi_name p) = Some v \<and> 0 < v))
   \<and> calculate_rtp_probabilities (\<lambda>n. n) case_single floors_AB
       = Some [\<lparr> name = ''A'', probability = 1, floor_price = 10, imageFilename = ''A'',
                  is_ton_prize = False \<rparr>]
   \<and> (\<exists>t. calculate_rtp_probabilities (\<lambda>n. n) case_single floors_AB = Some t \<and> t \<noteq> []
          \<and> \<bar>sum_probs t - 1\<bar> \<le> 1 / 10 ^ 7)"
proof -
  have r: "ran floors_AB = {1, 10}"
    by (simp add: floors_AB_def)
  have h1: "0 < priceTON case_single"
    and h2: "\<forall>p \<in> set (prizes case_single). 0 < pi_probability p"
    and h4: "\<exists>p \<in> set (prizes case_single). \<exists>v. floors_AB (pi_name p) = Some v \<and> 0 < v"
    by (simp_all add: case_single_def raw_prize_def floors_AB_def)
  have h3: "\<forall>v \<in> ran floors_AB. 0 \<le> v"
    by (simp add: r)
  have ev: "calculate_rtp_probabilities (\<lambda>n. n) case_single floors_AB
       = Some [\<lparr> name = ''A'', probability = 1, floor_price = 10, imageFilename = ''A'',
                  is_ton_prize = False \<rparr>]"
    by (simp add: calculate_rtp_probabilities_def case_single_def raw_prize_def floors_AB_def
        build_prizes_def Let_def filler_index_def non_filler_def anchor_filler_def
        final_correction_def sum_probs_def RTP_TARGET_def FLOAT_1E_7_def)
  have c: "\<exists>t. calculate_rtp_probabilities (\<lambda>n. n) case_single floors_AB = Some t \<and> t \<noteq> []
          \<and> \<bar>sum_probs t - 1\<bar> \<le> 1 / 10 ^ 7"
    using calibrated_probabilities_sum_to_one [OF h1 h2 h3 h4, of "\<lambda>n. n"] by (rule conjunct1)
  have h2': "list_all (\<lambda>p. 0 < pi_probability p) (prizes case_single)"
    using h2 by (simp add: list_all_iff)
  have h4': "\<exists>p. p \<in> set (prizes case_single) \<and> (\<exists>v. floors_AB (pi_name p) = Some v \<and> 0 < v)"
    using h4 by blast
  show ?thesis
    using h1 h2' r h4' ev c by (intro conjI)
qed

subsection \<open>Expected value of the calibrated tables\<close>

lemma build_plushpepe:
  "build_prizes g case_plushpepe (map_of UPDATED_FLOOR_PRICES) =
     [\<lparr> name = ''Plush Pepe'', probability = 1 / 1000000, floor_price = 3024,
         imageFilename = g ''Plush Pepe'', is_ton_prize = False \<rparr>,
      \<lparr> name = ''Heart Locket'', probability = 1 / 1000000, floor_price = 990,
         imageFilename = g ''Heart Locket'', is_ton_prize = False \<rparr>,
      \<lparr> name = ''Durov's Cap'', probability = 5 / 1000000, floor_price = 420,
         imageFilename = g ''Durov's Cap'', is_ton_prize = False \<rparr>,
      \<lparr> name = ''Precious Peach'', probability = 4 / 10, floor_price = 270,
         imageFilename = g ''Precious Peach'', is_ton_prize = False \<rparr>,
      \<lparr> name = ''Astral Shard'', probability = 299993 / 1000000, floor_price = 80,
         imageFilename = g ''Astral Shard'', is_ton_prize = False \<rparr>,
      \<lparr> name = ''Bonded Ring'', probability = 3 / 10, floor_price = 605 / 10,
         imageFilename = g ''Bonded Ring'', is_ton_prize = False \<rparr>]"
  by (simp add: build_prizes_def case_plushpepe_def raw_prize_def UPDATED_FLOOR_PRICES_def)

lemma plushpepe_table:
  "calculate_rtp_probabilities g case_plushpepe (map_of UPDATED_FLOOR_PRICES) =
     Some
     [\<lparr> name = ''Plush Pepe'', probability = 8252777 / 21175000000000, floor_price = 3024,
         imageFilename = g ''Plush Pepe'', is_ton_prize = False \<rparr>,
      \<lparr> name = ''Heart Locket'', probability = 8252777 / 21175000000000, floor_price = 990,
         imageFilename = g ''Heart Locket'', is_ton_prize = False \<rparr>,
      \<lparr> name = ''Durov's Cap'', probability = 8252777 / 4235000000000, floor_price = 420,
         imageFilename = g ''Durov's Cap'', is_ton_prize = False \<rparr>,
      \<lparr> name = ''Precious Peach'', probability = 8252777 / 52937500, floor_price = 270,
         imageFilename = g ''Precious Peach'', is_ton_prize = False \<rparr>,
      \<lparr> name = ''Astral Shard'', probability = 2475775330561 / 21175000000000, floor_price = 80,
         imageFilename = g ''Astral Shard'', is_ton_prize = False \<rparr>,
      \<lparr> name = ''Bonded Ring'', probability = 21997223 / 30250000, floor_price = 605 / 10,
         imageFilename = g ''Bonded Ring'', is_ton_prize = False \<rparr>]"
  unfolding calculate_rtp_probabilities_def build_plushpepe
  by (simp add: Let_def filler_index_def non_filler_def anchor_filler_def
      final_correction_def sum_probs_def RTP_TARGET_def FLOAT_1E_7_def case_plushpepe_def)

lemma build_girls:
  "build_prizes g case_girls_collection (map_of UPDATED_FLOOR_PRICES) =
     map (\<lambda>(n, p, f). \<lparr> name = n, probability = p, floor_price = f, imageFilename = g n,
                         is_ton_prize = False \<rparr>)
       [(''Genie Lamp'', 1 / 100000, 46), (''Loot Bag'', 1 / 100000, 45),
        (''Sharp Tongue'', 1 / 100000, 17), (''Toy Bear'', 1 / 100000, 163 / 10),
        (''Neko Helmet'', 1 / 100000, 15), (''Cupid Charm'', 1 / 10, 12),
        (''Eternal Rose'', 1 / 10000, 11), (''Berry Box'', 2 / 10, 41 / 10),
        (''Sakura Flower'', 2 / 10, 41 / 10), (''Valentine Box'', 1 / 10, 4),
        (''Bunny Muffin'', 19985 / 100000, 4), (''Star Notepad'', 2 / 10, 28 / 10)]"
  by (simp add: build_prizes_def case_girls_collection_def raw_prize_def UPDATED_FLOOR_PRICES_def)

lemma girls_fallback_table:
  "calculate_rtp_probabilities_proportional_fallback g case_girls_collection
       (map_of UPDATED_FLOOR_PRICES)
     = Some (build_prizes g case_girls_collection (map_of UPDATED_FLOOR_PRICES))"
  unfolding calculate_rtp_probabilities_proportional_fallback_def build_girls
  by (simp add: Let_def final_correction_def sum_probs_def RTP_TARGET_def FLOAT_1E_7_def
      case_girls_collection_def)

lemma girls_takes_fallback:
  "calculate_rtp_probabilities g case_girls_collection (map_of UPDATED_FLOOR_PRICES)
     = calculate_rtp_probabilities_proportional_fallback g case_girls_collection
         (map_of UPDATED_FLOOR_PRICES)"
  unfolding calculate_rtp_probabilities_def build_girls
  by (simp add: Let_def filler_index_def non_filler_def RTP_TARGET_def case_girls_collection_def)

lemma girls_ev:
  "table_ev (build_prizes g case_girls_collection (map_of UPDATED_FLOOR_PRICES)) = 4601893 / 1000000"
  "sum_probs (build_prizes g case_girls_collection (map_of UPDATED_FLOOR_PRICES)) = 1"
  unfolding build_girls by (simp_all add: table_ev_def sum_probs_def)

lemma two_primary_table:
  "calculate_rtp_probabilities g case_two_primary floors_AB =
     Some [\<lparr> name = ''A'', probability = 24 / 100, floor_price = 10, imageFilename = g ''A'',
               is_ton_prize = False \<rparr>,
           \<lparr> name = ''B'', probability = 76 / 100, floor_price = 1, imageFilename = g ''B'',
               is_ton_prize = False \<rparr>]"
  by (simp add: calculate_rtp_probabilities_def case_two_primary_def raw_prize_def floors_AB_def
      build_prizes_def Let_def filler_index_def non_filler_def anchor_filler_def
      final_correction_def sum_probs_def RTP_TARGET_def FLOAT_1E_7_def)

lemma two_fallback_table:
  "calculate_rtp_probabilities g case_two_fallback floors_AB =
     Some [\<lparr> name = ''A'', probability = 5 / 10, floor_price = 10, imageFilename = g ''A'',
               is_ton_prize = False \<rparr>,
           \<lparr> name = ''B'', probability = 5 / 10, floor_price = 1, imageFilename = g ''B'',
               is_ton_prize = False \<rparr>]"
    "calculate_rtp_probabilities g case_two_fallback floors_AB =
     calculate_rtp_probabilities_proportional_fallback g case_two_fallback floors_AB"
  by (simp_all add: calculate_rtp_probabilities_def case_two_fallback_def raw_prize_def floors_AB_def
      calculate_rtp_probabilities_proportional_fallback_def
      build_prizes_def Let_def filler_index_def non_filler_def anchor_filler_def
      final_correction_def sum_probs_def RTP_TARGET_def FLOAT_1E_7_def)

text \<open>
  C1. The specification states that the calibrated table has expected value price times
  target RTP within \<open>10\<^sup>-\<^sup>6\<close>. The functions evaluated on the catalogue: the case \<^verbatim>\<open>plushpepe\<close> (price 200,
  target 176) takes the filler-anchored path and its table has expected value about
  95.44; the case \<^verbatim>\<open>girls_collection\<close> (price 8, target 7.04) takes the fallback, which
  returns the raw weights, with expected value 4.601893. On the two small cases, where
  the decimal arithmetic of the source is exact, the expected values are 3.16 and 5.5
  against the target 1.76.
\<close>

theorem calibration_misses_target_ev:
  "map_option (\<lambda>t. (sum_probs t, table_ev t))
       (calculate_rtp_probabilities g case_plushpepe (map_of UPDATED_FLOOR_PRICES))
     = Some (1, 1010497396986729 / 10587500000000)
   \<and> priceTON case_plushpepe * RTP_TARGET = 176
   \<and> calculate_rtp_probabilities g case_girls_collection (map_of UPDATED_FLOOR_PRICES)
     = calculate_rtp_probabilities_proportional_fallback g case_girls_collection
         (map_of UPDATED_FLOOR_PRICES)
   \<and> map_option (\<lambda>t. (sum_probs t, table_ev t))
       (calculate_rtp_probabilities_proportional_fallback g case_girls_collection
         (map_of UPDATED_FLOOR_PRICES))
     = Some (1, 4601893 / 1000000)
   \<and> priceTON case_girls_collection * RTP_TARGET = 704 / 100
   \<and> map_option (\<lambda>t. (sum_probs t, table_ev t))
       (calculate_rtp_probabilities g case_two_primary floors_AB) = Some (1, 316 / 100)
   \<and> priceTON case_two_primary * RTP_TARGET = 176 / 100
   \<and> calculate_rtp_probabilities g case_two_fallback floors_AB
     = calculate_rtp_probabilities_proportional_fallback g case_two_fallback floors_AB
   \<and> map_option (\<lambda>t. (sum_probs t, table_ev t))
       (calculate_rtp_probabilities_proportional_fallback g case_two_fallback floors_AB)
     = Some (1, 55 / 10)
   \<and> priceTON case_two_fallback * RTP_TARGET = 176 / 100"
proof (intro conjI)
  show "map_option (\<lambda>t. (sum_probs t, table_ev t))
       (calculate_rtp_probabilities g case_plushpepe (map_of UPDATED_FLOOR_PRICES))
     = Some (1, 1010497396986729 / 10587500000000)"
    unfolding plushpepe_table by (simp add: sum_probs_def table_ev_def)
  show "calculate_rtp_probabilities g case_girls_collection (map_of UPDATED_FLOOR_PRICES)
     = calculate_rtp_probabilities_proportional_fallback g case_girls_collection
         (map_of UPDATED_FLOOR_PRICES)"
    by (rule girls_takes_fallback)
  show "map_option (\<lambda>t. (sum_probs t, table_ev t))
       (calculate_rtp_probabilities_proportional_fallback g case_girls_collection
         (map_of UPDATED_FLOOR_PRICES))
     = Some (1, 4601893 / 1000000)"
    by (simp only: girls_fallback_table girls_ev option.map)
  show "map_option (\<lambda>t. (sum_probs t, table_ev t))
       (calculate_rtp_probabilities g case_two_primary floors_AB) = Some (1, 316 / 100)"
    unfolding two_primary_table by (simp add: sum_probs_def table_ev_def)
  show "calculate_rtp_probabilities g case_two_fallback floors_AB
     = calculate_rtp_probabilities_proportional_fallback g case_two_fallback floors_AB"
    by (rule two_fallback_table(2))
  show "map_option (\<lambda>t. (sum_probs t, table_ev t))
       (calculate_rtp_probabilities_proportional_fallback g case_two_fallback floors_AB)
     = Some (1, 55 / 10)"
    unfolding two_fallback_table(2) [symmetric] two_fallback_table(1)
    by (simp add: sum_probs_def table_ev_def)
qed (simp_all add: case_plushpepe_def case_girls_collection_def case_two_primary_def
      case_two_fallback_def RTP_TARGET_def)

theorem calibration_misses_target_ev_witness:
  "map_option (\<lambda>t. (sum_probs t, table_ev t))
       (calculate_rtp_probabilities (\<lambda>n. n) case_plushpepe (map_of UPDATED_FLOOR_PRICES))
     = Some (1, 1010497396986729 / 10587500000000)
   \<and> priceTON case_plushpepe * RTP_TARGET = 176
   \<and> map_option (\<lambda>t. (sum_probs t, table_ev t))
       (calculate_rtp_probabilities (\<lambda>n. n) case_two_primary floors_AB) = Some (1, 316 / 100)
   \<and> priceTON case_two_primary * RTP_TARGET = 176 / 100"
  using calibration_misses_target_ev [of "\<lambda>n. n"] by blast

section \<open>Properties of the ledger handlers\<close>

subsection \<open>Queries after writes\<close>

lemma find_map_preserving:
  assumes "\<And>x. P (g x) = P x"
  shows "find P (map g xs) = map_option g (find P xs)"
  by (induction xs) (simp_all add: assms)

lemma get_user_update_user:
  assumes "\<And>u. user_id (f u) = user_id u"
  shows "get_user uid (update_user uid' f d)
         = map_option (\<lambda>u. if user_id u = uid' then f u else u) (get_user uid d)"
  unfolding get_user_def update_user_def
  by (simp add: find_map_preserving assms)

lemma find_promo_update_promo:
  assumes "\<And>p. code_text (f p) = code_text p"
  shows "find (\<lambda>p. code_text p = c) (promo_codes (update_promo k f d))
         = map_option (\<lambda>p. if promo_id p = k then f p else p)
             (find (\<lambda>p. code_text p = c) (promo_codes d))"
  unfolding update_promo_def
  by (simp add: find_map_preserving assms)

lemma find_append_new:
  "find P xs = None \<Longrightarrow> P x \<Longrightarrow> find P (xs @ [x]) = Some x"
  by (induction xs) (auto split: if_splits)

lemma find_Some_holds: "find P xs = Some x \<Longrightarrow> P x"
  by (induction xs) (auto split: if_splits)

lemma find_append_old:
  "find P xs = Some x \<Longrightarrow> find P (xs @ ys) = Some x"
  by (induction xs) (auto split: if_splits)

lemma get_item_holds:
  "get_item i uid d = Some it \<Longrightarrow> item_id it = i \<and> item_user_id it = uid \<and> it \<in> set (inventory_items d)"
  unfolding get_item_def by (induction "inventory_items d" arbitrary: d) (auto simp: find_Some_iff)

lemma balances_after_counter_update:
  "map ton_balance (map (\<lambda>v. if P v then v\<lparr>total_won_ton := f v\<rparr> else v) us)
     = map ton_balance us"
  by (induction us) auto

subsection \<open>Promo code redemption\<close>

text \<open>
  C6, as the specification states it. With one activation left, amount 5 and balance 0, the
  first redemption succeeds with balance 5; the second attempt of the same account does
  not fail with the already-redeemed error: the activations-left check comes first and
  answers that the code has expired.
\<close>

theorem redeem_second_attempt_counterexample:
  "fst (redeem_promocode_api (Some example_auth) ''WELCOME'' (example_db 0 (example_promo 1 5)))
     = RedeemSuccess 5 5
   \<and> fst (redeem_promocode_api (Some example_auth) ''WELCOME''
           (snd (redeem_promocode_api (Some example_auth) ''WELCOME''
                  (example_db 0 (example_promo 1 5)))))
     = Error 400 ''Code expired.''
   \<and> fst (redeem_promocode_api (Some example_auth) ''WELCOME''
           (snd (redeem_promocode_api (Some example_auth) ''WELCOME''
                  (example_db 0 (example_promo 1 5)))))
     \<noteq> Error 400 ''Already redeemed.''"
  by (simp add: redeem_promocode_api_def example_auth_def example_db_def example_promo_def
      example_user_def get_user_def update_user_def update_promo_def Let_def)

text \<open>
  C6, amended. For an account that has not redeemed a code which is unlimited (\<open>-1\<close>)
  or has activations left: the first redemption succeeds, credits the amount and
  decrements the activations unless the code is unlimited (an unlimited code stays at
  \<open>-1\<close> and never expires); the second attempt of the same account fails and leaves
  the whole state as the first left it, with the code-expired error when the first
  redemption used the last activation and with the already-redeemed error otherwise.
  With one activation, amount 5 and balance 0: balance 5, no activation left, and the
  second attempt answers that the code has expired.
\<close>

theorem redeem_twice:
  assumes auth: "auth = Some a"
    and code: "code \<noteq> []"
    and user: "get_user (auth_id a) d = Some u"
    and promo: "find (\<lambda>p. code_text p = code) (promo_codes d) = Some p"
    and fresh: "find (\<lambda>r. redemption_user_id r = auth_id a
                         \<and> redemption_promo_code_id r = promo_id p) (redemptions d) = None"
    and live: "activations_left p = - 1 \<or> 0 < activations_left p"
  shows "\<exists>d1. redeem_promocode_api auth code d
                 = (RedeemSuccess (ton_amount p) (ton_balance u + ton_amount p), d1)
            \<and> get_user (auth_id a) d1 = Some (u\<lparr>ton_balance := ton_balance u + ton_amount p\<rparr>)
            \<and> find (\<lambda>p. code_text p = code) (promo_codes d1)
                = Some (p\<lparr>activations_left :=
                            (if activations_left p = - 1 then - 1 else activations_left p - 1)\<rparr>)
            \<and> redeem_promocode_api auth code d1
                = (Error 400 (if activations_left p = 1 then ''Code expired.''
                              else ''Already redeemed.''), d1)"
proof -
  let ?n = "activations_left p"
  let ?dp = "if ?n \<noteq> - 1
             then update_promo (promo_id p) (\<lambda>q. q\<lparr>activations_left := activations_left p - 1\<rparr>) d
             else d"
  let ?du = "update_user (auth_id a) (\<lambda>v. v\<lparr>ton_balance := ton_balance u + ton_amount p\<rparr>) ?dp"
  let ?red = "\<lparr> redemption_user_id = auth_id a, redemption_promo_code_id = promo_id p \<rparr>"
  let ?d1 = "?du\<lparr>redemptions := redemptions ?du @ [?red]\<rparr>"
  have uid: "user_id u = auth_id a"
    using find_Some_holds [OF user [unfolded get_user_def]] .
  have not_expired: "\<not> (?n \<noteq> - 1 \<and> ?n \<le> 0)" using live by auto
  have first: "redeem_promocode_api auth code d
                 = (RedeemSuccess (ton_amount p) (ton_balance u + ton_amount p), ?d1)"
    using auth code user promo fresh not_expired
    by (simp add: redeem_promocode_api_def Let_def)
  have users_dp: "users ?dp = users d" by (simp add: update_promo_def)
  have gu: "get_user (auth_id a) ?d1 = Some (u\<lparr>ton_balance := ton_balance u + ton_amount p\<rparr>)"
  proof -
    have "get_user (auth_id a) ?d1 = get_user (auth_id a) ?du" by (simp add: get_user_def)
    also have "\<dots> = map_option (\<lambda>v. if user_id v = auth_id a
                        then v\<lparr>ton_balance := ton_balance u + ton_amount p\<rparr> else v)
                        (get_user (auth_id a) ?dp)"
      by (rule get_user_update_user) simp
    also have "get_user (auth_id a) ?dp = Some u"
      using user by (simp add: get_user_def users_dp)
    finally show ?thesis using uid by simp
  qed
  have fp: "find (\<lambda>p. code_text p = code) (promo_codes ?d1)
                = Some (p\<lparr>activations_left := (if ?n = - 1 then - 1 else ?n - 1)\<rparr>)"
  proof (cases "?n = - 1")
    case True
    then have "p\<lparr>activations_left := - 1\<rparr> = p" by (cases p) simp
    then show ?thesis using True promo by (simp add: update_user_def)
  next
    case False
    have "find (\<lambda>p. code_text p = code) (promo_codes ?dp)
            = map_option (\<lambda>q. if promo_id q = promo_id p
                   then q\<lparr>activations_left := activations_left p - 1\<rparr> else q)
                (find (\<lambda>p. code_text p = code) (promo_codes d))"
      using False by (simp add: find_promo_update_promo)
    then show ?thesis using False promo by (simp add: update_user_def)
  qed
  have reds: "find (\<lambda>r. redemption_user_id r = auth_id a
                         \<and> redemption_promo_code_id r = promo_id p) (redemptions ?d1) = Some ?red"
  proof -
    have "redemptions ?d1 = redemptions d @ [?red]"
      by (simp add: update_user_def update_promo_def)
    then show ?thesis using fresh by (simp add: find_append_new)
  qed
  have second: "redeem_promocode_api auth code ?d1
                = (Error 400 (if ?n = 1 then ''Code expired.'' else ''Already redeemed.''), ?d1)"
  proof (cases "?n = 1")
    case True
    then show ?thesis
      using auth code gu fp
      by (simp add: redeem_promocode_api_def Let_def)
  next
    case False
    with live have "?n = - 1 \<or> 1 < ?n" by auto
    then show ?thesis
      using auth code gu fp reds False
      by (auto simp add: redeem_promocode_api_def Let_def)
  qed
  show ?thesis using first gu fp second by blast
qed

theorem redeem_twice_witness:
  "get_user (auth_id example_auth) (example_db 0 (example_promo 1 5)) = Some (example_user 0 0)
   \<and> find (\<lambda>p. code_text p = ''WELCOME'') (promo_codes (example_db 0 (example_promo 1 5)))
       = Some (example_promo 1 5)
   \<and> (\<exists>d1. redeem_promocode_api (Some example_auth) ''WELCOME'' (example_db 0 (example_promo 1 5))
              = (RedeemSuccess 5 5, d1)
         \<and> get_user (auth_id example_auth) d1 = Some (example_user 5 0)
         \<and> find (\<lambda>p. code_text p = ''WELCOME'') (promo_codes d1) = Some (example_promo 0 5)
         \<and> redeem_promocode_api (Some example_auth) ''WELCOME'' d1
              = (Error 400 ''Code expired.'', d1))"
proof -
  let ?d = "example_db 0 (example_promo 1 5)"
  have u: "get_user (auth_id example_auth) ?d = Some (example_user 0 0)"
    by (simp add: get_user_def example_db_def example_user_def example_auth_def)
  have p: "find (\<lambda>p. code_text p = ''WELCOME'') (promo_codes ?d) = Some (example_promo 1 5)"
    by (simp add: example_db_def example_promo_def)
  have f: "find (\<lambda>r. redemption_user_id r = auth_id example_auth
                      \<and> redemption_promo_code_id r = promo_id (example_promo 1 5))
              (redemptions ?d) = None"
    by (simp add: example_db_def)
  have l: "activations_left (example_promo 1 5) = - 1 \<or> 0 < activations_left (example_promo 1 5)"
    by (simp add: example_promo_def)
  have c: "''WELCOME'' \<noteq> []" by simp
  from redeem_twice [OF refl c u p f l]
  show ?thesis
    using u p by (simp add: example_promo_def example_user_def)
qed

subsection \<open>Upgrade\<close>

text \<open>
  C8. For an upgrade request that reaches the roll: when the roll fails, the state after
  it is exactly the state before with the source item deleted and the cumulative
  winnings of the account lowered by the item's value, without a floor at zero; when it
  succeeds, the item is replaced by the new one and the winnings rise by the difference;
  either way every currency balance is unchanged. The conversion of the same item
  lowers the winnings with a floor at zero.
\<close>

theorem upgrade_effects:
  assumes auth: "auth = Some a"
    and iid: "iid = Some i" "i \<noteq> 0"
    and wanted: "wanted = Some n" "n \<noteq> []"
    and user: "get_user (auth_id a) d = Some u"
    and item: "get_item i (auth_id a) d = Some it"
    and nft: "get_nft_by_name n d = Some x"
    and ok: "\<not> item_is_ton_prize it" "0 < current_value it" "current_value it < nft_floor_price x"
  shows "(\<not> roll < upgrade_chance (current_value it) (nft_floor_price x) \<longrightarrow>
            upgrade_item_v2_api auth iid wanted roll d =
              (UpgradeFailed,
               d\<lparr>users := map (\<lambda>v. if user_id v = auth_id a
                                    then v\<lparr>total_won_ton := total_won_ton u - current_value it\<rparr>
                                    else v) (users d),
                 inventory_items := filter (\<lambda>j. item_id j \<noteq> i) (inventory_items d)\<rparr>))
       \<and> (roll < upgrade_chance (current_value it) (nft_floor_price x) \<longrightarrow>
            (\<exists>new_item. upgrade_item_v2_api auth iid wanted roll d =
              (UpgradeSuccess new_item,
               d\<lparr>users := map (\<lambda>v. if user_id v = auth_id a
                                    then v\<lparr>total_won_ton := total_won_ton u
                                             + (nft_floor_price x - current_value it)\<rparr>
                                    else v) (users d),
                 inventory_items := filter (\<lambda>j. item_id j \<noteq> i) (inventory_items d) @ [new_item],
                 next_item_id := next_item_id d + 1\<rparr>)
              \<and> current_value new_item = nft_floor_price x))
       \<and> map ton_balance (users (snd (upgrade_item_v2_api auth iid wanted roll d)))
           = map ton_balance (users d)
       \<and> convert_to_ton_api auth iid d =
              (ConvertSuccess (ton_balance u + current_value it),
               d\<lparr>users := map (\<lambda>v. if user_id v = auth_id a
                                    then v\<lparr>ton_balance := ton_balance u + current_value it,
                                           total_won_ton := max 0 (total_won_ton u - current_value it)\<rparr>
                                    else v) (users d),
                 inventory_items := filter (\<lambda>j. item_id j \<noteq> i) (inventory_items d)\<rparr>)"
proof -
  have id: "item_id it = i" using get_item_holds [OF item] by simp
  show ?thesis
    using assms id
    by (auto simp add: upgrade_item_v2_api_def convert_to_ton_api_def falsy_int_def falsy_str_def
        Let_def update_user_def delete_item_def add_item_def balances_after_counter_update)
qed

theorem upgrade_effects_witness:
  "get_user (auth_id example_auth) (example_db 0 (example_promo 1 5)) = Some (example_user 0 0)
   \<and> get_item 3 (auth_id example_auth) (example_db 0 (example_promo 1 5)) = Some example_item
   \<and> get_nft_by_name ''Toy Bear'' (example_db 0 (example_promo 1 5)) = Some example_nft
   \<and> upgrade_chance (current_value example_item) (nft_floor_price example_nft) = 45
   \<and> upgrade_item_v2_api (Some example_auth) (Some 3) (Some ''Toy Bear'') 50
        (example_db 0 (example_promo 1 5))
       = (UpgradeFailed,
          (example_db 0 (example_promo 1 5))\<lparr>users := [example_user 0 (- 10)],
                                              inventory_items := []\<rparr>)
   \<and> convert_to_ton_api (Some example_auth) (Some 3) (example_db 0 (example_promo 1 5))
       = (ConvertSuccess 10,
          (example_db 0 (example_promo 1 5))\<lparr>users := [example_user 10 0],
                                              inventory_items := []\<rparr>)"
proof -
  let ?d = "example_db 0 (example_promo 1 5)"
  have u: "get_user (auth_id example_auth) ?d = Some (example_user 0 0)"
    by (simp add: get_user_def example_db_def example_user_def example_auth_def)
  have i: "get_item 3 (auth_id example_auth) ?d = Some example_item"
    by (simp add: get_item_def example_db_def example_item_def example_auth_def)
  have n: "get_nft_by_name ''Toy Bear'' ?d = Some example_nft"
    by (simp add: get_nft_by_name_def example_db_def example_nft_def)
  have ok: "\<not> item_is_ton_prize example_item" "0 < current_value example_item"
      "current_value example_item < nft_floor_price example_nft"
    by (simp_all add: example_item_def example_nft_def)
  have ch: "upgrade_chance (current_value example_item) (nft_floor_price example_nft) = 45"
    by (simp add: example_item_def example_nft_def upgrade_chance_def UPGRADE_MAX_CHANCE_def
        UPGRADE_MIN_CHANCE_def UPGRADE_RISK_FACTOR_def)
  have three: "(3::int) \<noteq> 0" and tb: "''Toy Bear'' \<noteq> []" by simp_all
  from upgrade_effects [OF refl refl three refl tb u i n ok, of 50]
  show ?thesis
    using u i n ch
    by (simp add: example_db_def example_user_def example_item_def example_nft_def
        example_auth_def)
qed

subsection \<open>Referral registration\<close>




subsection \<open>Gift withdrawal\<close>

text \<open>
  What the handler does on every outcome of the call to the fulfilment service, for an
  account with a username and an item it owns that is not a currency prize: the item is
  deleted if and only if the call succeeds; when the call fails, the state is exactly as
  before and an error is returned, with status 502 for a timeout or connection failure
  and for an error status whose body is a JSON object or is not JSON, and with status
  500 when the body is JSON of another shape.
\<close>

lemma withdraw_deletes_iff_fulfilled:
  assumes auth: "auth = Some a"
    and uname: "auth_username a = Some w" "w \<noteq> []"
    and iid: "i \<noteq> 0"
    and item: "get_item i (auth_id a) d = Some it"
    and gift: "\<not> item_is_ton_prize it"
    and payload: "payload = \<lparr> giftname = gift_name_of it d, receiverUsername = w,
                              senderUsername = WITHDRAWAL_SENDER_USERNAME \<rparr>"
  shows "(get_item i (auth_id a) (snd (withdraw_gift_api post auth (Some i) d)) = None)
           = (post payload = ExtOk)
       \<and> (post payload = ExtOk \<longrightarrow>
            withdraw_gift_api post auth (Some i) d
              = (WithdrawSuccess (gift_name_of it d), delete_item i d))
       \<and> (post payload \<noteq> ExtOk \<longrightarrow>
            snd (withdraw_gift_api post auth (Some i) d) = d
            \<and> (\<exists>msg. fst (withdraw_gift_api post auth (Some i) d)
                        = Error (if post payload = ExtErrorOtherJson then 500 else 502) msg))"
proof -
  have id: "item_id it = i" using get_item_holds [OF item] by simp
  have gone: "get_item i (auth_id a) (delete_item i d) = None"
    by (simp add: get_item_def delete_item_def find_None_iff)
  show ?thesis
    using assms id gone
    by (cases "post payload")
       (simp_all add: withdraw_gift_api_def falsy_int_def falsy_str_def Let_def)
qed

lemma withdraw_deletes_iff_fulfilled_example:
  "get_item 3 (auth_id example_auth) (example_db 0 (example_promo 1 5)) = Some example_item
   \<and> withdraw_gift_api (\<lambda>p. ExtNoResponse) (Some example_auth) (Some 3)
        (example_db 0 (example_promo 1 5))
       = (Error 502 ''Withdrawal service is currently unavailable. Please try again later.'',
          example_db 0 (example_promo 1 5))
   \<and> withdraw_gift_api (\<lambda>p. ExtOk) (Some example_auth) (Some 3)
        (example_db 0 (example_promo 1 5))
       = (WithdrawSuccess (Some ''Skebob''),
          (example_db 0 (example_promo 1 5))\<lparr>inventory_items := []\<rparr>)"
proof -
  let ?d = "example_db 0 (example_promo 1 5)"
  have i: "get_item 3 (auth_id example_auth) ?d = Some example_item"
    by (simp add: get_item_def example_db_def example_item_def example_auth_def)
  have w: "auth_username example_auth = Some ''alice''" "''alice'' \<noteq> []"
    by (simp_all add: example_auth_def)
  have g: "\<not> item_is_ton_prize example_item" by (simp add: example_item_def)
  have three: "(3::int) \<noteq> 0" by simp
  have e1: "fst (withdraw_gift_api (\<lambda>p. ExtNoResponse) (Some example_auth) (Some 3) ?d)
       = Error 502 ''Withdrawal service is currently unavailable. Please try again later.''"
    using i w g by (simp add: withdraw_gift_api_def falsy_str_def falsy_int_def Let_def)
  have gn: "gift_name_of example_item ?d = Some ''Skebob''"
    by (simp add: gift_name_of_def example_item_def)
  have del: "delete_item 3 ?d = ?d\<lparr>inventory_items := []\<rparr>"
    by (simp add: delete_item_def example_db_def example_item_def)
  from withdraw_deletes_iff_fulfilled [OF refl w three i g refl, of "\<lambda>p. ExtNoResponse"]
  have "snd (withdraw_gift_api (\<lambda>p. ExtNoResponse) (Some example_auth) (Some 3) ?d) = ?d"
    by simp
  with e1 have a: "withdraw_gift_api (\<lambda>p. ExtNoResponse) (Some example_auth) (Some 3) ?d
       = (Error 502 ''Withdrawal service is currently unavailable. Please try again later.'', ?d)"
    by (metis prod.collapse)
  from withdraw_deletes_iff_fulfilled [OF refl w three i g refl, of "\<lambda>p. ExtOk"]
  have b: "withdraw_gift_api (\<lambda>p. ExtOk) (Some example_auth) (Some 3) ?d
       = (WithdrawSuccess (Some ''Skebob''), ?d\<lparr>inventory_items := []\<rparr>)"
    by (simp add: gn del)
  show ?thesis using i a b by (intro conjI)
qed

text \<open>
  C7. A withdrawal whose fulfilment call fails is to leave the state as it was and to
  return a retryable external-service error. When the fulfilment service answers an
  error status with a body that is JSON but not an object (a list, a string, a number,
  \<^verbatim>\<open>null\<close>), \<^verbatim>\<open>.get\<close> raises, \<^verbatim>\<open>except json.JSONDecodeError\<close> does not catch it, and
  the outer handler answers status 500 with the internal-error message: the state is
  unchanged, but the error is not the external-service error 502 that the same handler
  returns for a body that is not JSON and for a body that is a JSON object.
\<close>

theorem withdraw_error_body_not_an_object:
  "get_item 3 (auth_id example_auth) (example_db 0 (example_promo 1 5)) = Some example_item
   \<and> item_is_ton_prize example_item = False
   \<and> withdraw_gift_api (\<lambda>p. ExtErrorOtherJson) (Some example_auth) (Some 3)
        (example_db 0 (example_promo 1 5))
       = (Error 500 ''An internal server error occurred during the withdrawal process.'',
          example_db 0 (example_promo 1 5))
   \<and> withdraw_gift_api (\<lambda>p. ExtErrorNotJson 500) (Some example_auth) (Some 3)
        (example_db 0 (example_promo 1 5))
       = (Error 502 ''Withdrawal service returned an invalid response (Status 500).'',
          example_db 0 (example_promo 1 5))
   \<and> withdraw_gift_api (\<lambda>p. ExtErrorObject None) (Some example_auth) (Some 3)
        (example_db 0 (example_promo 1 5))
       = (Error 502 ''Withdrawal service failed: Unknown API error'',
          example_db 0 (example_promo 1 5))"
proof -
  let ?d = "example_db 0 (example_promo 1 5)"
  have i: "get_item 3 (auth_id example_auth) ?d = Some example_item"
    by (simp add: get_item_def example_db_def example_item_def example_auth_def)
  have w: "auth_username example_auth = Some ''alice''"
    by (simp add: example_auth_def)
  have g: "item_is_ton_prize example_item = False" by (simp add: example_item_def)
  have s: "str_nat 500 = ''500''"
    by (simp add: str_nat.simps [of 500] str_nat.simps [of 50] str_nat.simps [of 5])
  have a: "withdraw_gift_api (\<lambda>p. ExtErrorOtherJson) (Some example_auth) (Some 3) ?d
       = (Error 500 ''An internal server error occurred during the withdrawal process.'', ?d)"
    using i w g by (simp add: withdraw_gift_api_def falsy_str_def falsy_int_def Let_def)
  have b: "withdraw_gift_api (\<lambda>p. ExtErrorNotJson 500) (Some example_auth) (Some 3) ?d
       = (Error 502 ''Withdrawal service returned an invalid response (Status 500).'', ?d)"
    using i w g s by (simp add: withdraw_gift_api_def falsy_str_def falsy_int_def Let_def)
  have c: "withdraw_gift_api (\<lambda>p. ExtErrorObject None) (Some example_auth) (Some 3) ?d
       = (Error 502 ''Withdrawal service failed: Unknown API error'', ?d)"
    using i w g by (simp add: withdraw_gift_api_def falsy_str_def falsy_int_def Let_def)
  show ?thesis using i g a b c by (intro conjI)
qed

subsection \<open>Opening a case\<close>

lemma length_accumulate_from [simp]: "length (accumulate_from a ws) = length ws"
  by (induction ws arbitrary: a) simp_all

lemma last_accumulate_from:
  "ws \<noteq> [] \<Longrightarrow> last (accumulate_from a ws) = a + sum_list ws"
proof (induction ws arbitrary: a)
  case Nil
  then show ?case by simp
next
  case (Cons w ws)
  show ?case
  proof (cases "ws = []")
    case True
    then show ?thesis by simp
  next
    case False
    then have "accumulate_from (a + w) ws \<noteq> []"
      by (metis length_accumulate_from length_0_conv)
    with Cons.IH [OF False, of "a + w"] show ?thesis by (simp add: add.assoc)
  qed
qed

lemma bisect_right_bounds:
  "lo \<le> hi \<Longrightarrow> lo \<le> bisect_right a x lo hi \<and> bisect_right a x lo hi \<le> hi"
proof (induction a x lo hi rule: bisect_right.induct)
  case (1 a x lo hi)
  show ?case
  proof (cases "lo < hi")
    case False
    with "1.prems" show ?thesis by (simp add: bisect_right.simps [of a x lo hi])
  next
    case True
    let ?mid = "(lo + hi) div 2"
    have m: "lo \<le> ?mid" "?mid < hi" using True by auto
    show ?thesis
    proof (cases "x < a ! ?mid")
      case T2: True
      from "1.IH"(1) [OF True refl T2] m
      have "lo \<le> bisect_right a x lo ?mid \<and> bisect_right a x lo ?mid \<le> ?mid" by simp
      with True T2 m show ?thesis
        by (subst (1 2) bisect_right.simps) (simp add: Let_def)
    next
      case F2: False
      from "1.IH"(2) [OF True refl F2] m
      have "?mid + 1 \<le> bisect_right a x (?mid + 1) hi \<and> bisect_right a x (?mid + 1) hi \<le> hi"
        by simp
      with True F2 m show ?thesis
        by (subst (1 2) bisect_right.simps) (simp add: Let_def)
    qed
  qed
qed

lemma random_choices_some:
  assumes "ps \<noteq> []" and "length ws = length ps" and "0 < sum_list ws"
  shows "\<exists>c \<in> set ps. random_choices ps ws r = Some c"
proof -
  have ne: "ws \<noteq> []" using assms by auto
  then have acc: "accumulate_from 0 ws \<noteq> []"
    by (metis length_accumulate_from length_0_conv)
  have total: "last (accumulate_from 0 ws) = sum_list ws"
    using last_accumulate_from [OF ne, of 0] by simp
  let ?k = "bisect_right (accumulate_from 0 ws) (r * sum_list ws) 0 (length ps - 1)"
  have "?k \<le> length ps - 1"
    using bisect_right_bounds [of 0 "length ps - 1"] by simp
  then have "?k < length ps" using assms(1) by (cases ps) auto
  then have "ps ! ?k \<in> set ps" by simp
  moreover have "random_choices ps ws r = Some (ps ! ?k)"
    using assms acc total by (simp add: random_choices_def Let_def)
  ultimately show ?thesis by blast
qed

lemma draw_prizes_result:
  assumes "ps \<noteq> []" and "0 < sum_probs ps"
  shows "\<exists>won d2. draw_prizes ps uid rs d = Some (won, d2)
           \<and> length won = length rs
           \<and> users d2 = users d
           \<and> inventory_items d2 = inventory_items d @ won
           \<and> map item_id won = map (\<lambda>k. next_item_id d + int k) [0 ..< length rs]
           \<and> (\<forall>it \<in> set won. drawn_from ps uid it)"
proof (induction rs arbitrary: d)
  case Nil
  show ?case by simp
next
  case (Cons r rs)
  from random_choices_some [of ps "map probability ps" r] assms
  obtain c where c: "c \<in> set ps" "random_choices ps (map probability ps) r = Some c"
    by (auto simp: sum_probs_def)
  let ?item = "\<lparr> item_id = next_item_id d, item_user_id = uid,
                  item_nft_id = map_option nft_id (get_nft_by_name (name c) d),
                  item_name_override = Some (name c),
                  item_image_override = Some (imageFilename c),
                  current_value = floor_price c,
                  upgrade_multiplier = 1,
                  item_is_ton_prize = is_ton_prize c \<rparr>"
  let ?d1 = "d\<lparr>inventory_items := inventory_items d @ [?item],
               next_item_id := next_item_id d + 1\<rparr>"
  from Cons.IH [of ?d1] obtain won d2 where
    ih: "draw_prizes ps uid rs ?d1 = Some (won, d2)" "length won = length rs"
        "users d2 = users ?d1" "inventory_items d2 = inventory_items ?d1 @ won"
        "map item_id won = map (\<lambda>k. next_item_id ?d1 + int k) [0 ..< length rs]"
        "\<forall>it \<in> set won. drawn_from ps uid it"
    by blast
  have step: "draw_prizes ps uid (r # rs) d = Some (?item # won, d2)"
    using c(2) ih(1) by (simp add: add_item_def Let_def)
  have dr: "drawn_from ps uid ?item" using c(1) by (auto simp: drawn_from_def)
  have ids: "map item_id (?item # won)
               = map (\<lambda>k. next_item_id d + int k) [0 ..< length (r # rs)]"
  proof -
    have "[0 ..< Suc (length rs)] = 0 # map Suc [0 ..< length rs]"
      by (simp add: upt_conv_Cons map_Suc_upt del: upt_Suc)
    then show ?thesis using ih(5) by (simp add: comp_def algebra_simps del: upt_Suc)
  qed
  show ?case
    using step ih(2,3,4,6) dr ids by (intro exI [of _ "?item # won"] exI [of _ d2]) simp
qed

lemma accumulate_from_nth:
  "i < length ws \<Longrightarrow> accumulate_from a ws ! i = a + sum_list (take (Suc i) ws)"
proof (induction ws arbitrary: a i)
  case Nil
  then show ?case by simp
next
  case (Cons w ws)
  show ?case
  proof (cases i)
    case 0
    then show ?thesis by simp
  next
    case (Suc k)
    with Cons.prems have "k < length ws" by simp
    from Cons.IH [OF this, of "a + w"] Suc show ?thesis by (simp add: add.assoc)
  qed
qed

lemma sum_list_take_mono:
  fixes ws :: "real list"
  assumes "\<forall>w \<in> set ws. 0 \<le> w" and "i \<le> j"
  shows "sum_list (take i ws) \<le> sum_list (take j ws)"
proof -
  have "take j ws = take i ws @ take (j - i) (drop i ws)"
    using assms(2) by (metis le_add_diff_inverse take_add)
  moreover have "0 \<le> sum_list (take (j - i) (drop i ws))"
    using assms(1) by (intro sum_list_nonneg) (auto dest!: in_set_takeD in_set_dropD)
  ultimately show ?thesis by simp
qed

lemma accumulate_from_mono:
  assumes "\<forall>w \<in> set ws. 0 \<le> w" and "i \<le> j" and "j < length ws"
  shows "accumulate_from a ws ! i \<le> accumulate_from a ws ! j"
  using assms sum_list_take_mono [of ws "Suc i" "Suc j"]
  by (simp add: accumulate_from_nth)

lemma bisect_right_spec:
  shows "lo \<le> hi \<Longrightarrow> hi \<le> length a \<Longrightarrow>
         (\<And>i j. i \<le> j \<Longrightarrow> j < length a \<Longrightarrow> a ! i \<le> a ! j) \<Longrightarrow>
         (\<forall>i. lo \<le> i \<and> i < bisect_right a x lo hi \<longrightarrow> a ! i \<le> x)
         \<and> (\<forall>i. bisect_right a x lo hi \<le> i \<and> i < hi \<longrightarrow> x < a ! i)"
proof (induction a x lo hi rule: bisect_right.induct)
  case (1 a x lo hi)
  show ?case
  proof (cases "lo < hi")
    case False
    then show ?thesis by (simp add: bisect_right.simps [of a x lo hi])
  next
    case True
    let ?mid = "(lo + hi) div 2"
    have m: "lo \<le> ?mid" "?mid < hi" using True by auto
    have ml: "?mid \<le> length a" "?mid + 1 \<le> hi" using m "1.prems"(2) by auto
    show ?thesis
    proof (cases "x < a ! ?mid")
      case T2: True
      have eq: "bisect_right a x lo hi = bisect_right a x lo ?mid"
        using True T2 by (subst bisect_right.simps) (simp add: Let_def)
      from "1.IH"(1) [OF True refl T2 m(1) ml(1) "1.prems"(3)]
      have ih: "(\<forall>i. lo \<le> i \<and> i < bisect_right a x lo ?mid \<longrightarrow> a ! i \<le> x)
         \<and> (\<forall>i. bisect_right a x lo ?mid \<le> i \<and> i < ?mid \<longrightarrow> x < a ! i)" .
      have "x < a ! i" if "bisect_right a x lo ?mid \<le> i" "i < hi" for i
      proof (cases "i < ?mid")
        case True
        with ih that show ?thesis by simp
      next
        case False
        then have "a ! ?mid \<le> a ! i" using that "1.prems"(2) by (intro "1.prems"(3)) auto
        with T2 show ?thesis by simp
      qed
      with ih show ?thesis unfolding eq by blast
    next
      case F2: False
      have eq: "bisect_right a x lo hi = bisect_right a x (?mid + 1) hi"
        using True F2 by (subst bisect_right.simps) (simp add: Let_def)
      from "1.IH"(2) [OF True refl F2 ml(2) "1.prems"(2) "1.prems"(3)]
      have ih: "(\<forall>i. ?mid + 1 \<le> i \<and> i < bisect_right a x (?mid + 1) hi \<longrightarrow> a ! i \<le> x)
         \<and> (\<forall>i. bisect_right a x (?mid + 1) hi \<le> i \<and> i < hi \<longrightarrow> x < a ! i)" .
      have "a ! i \<le> x" if "lo \<le> i" "i < bisect_right a x (?mid + 1) hi" for i
      proof (cases "?mid + 1 \<le> i")
        case True
        with ih that show ?thesis by simp
      next
        case False
        then have "a ! i \<le> a ! ?mid" using m "1.prems"(2) by (intro "1.prems"(3)) auto
        with F2 show ?thesis by simp
      qed
      with ih show ?thesis unfolding eq by blast
    qed
  qed
qed

lemma weight_interval_unique:
  assumes nn: "\<forall>w \<in> set ws. 0 \<le> w"
    and i: "weight_interval ws i u" and j: "weight_interval ws j u"
  shows "i = j"
proof -
  have less: "\<not> a < b" if a: "weight_interval ws a u" and b: "weight_interval ws b u" for a b
  proof
    assume "a < b"
    then have "sum_list (take (Suc a) ws) \<le> sum_list (take b ws)"
      using sum_list_take_mono [OF nn, of "Suc a" b] by simp
    with a b show False by (simp add: weight_interval_def)
  qed
  from less [OF i j] less [OF j i] show ?thesis by simp
qed

lemma random_choices_index:
  assumes ne: "ps \<noteq> []" and len: "length ws = length ps" and tot: "0 < sum_list ws"
  shows "\<exists>j < length ps. random_choices ps ws u = Some (ps ! j)
            \<and> ((\<forall>w \<in> set ws. 0 \<le> w) \<and> 0 \<le> u \<and> u < 1 \<longrightarrow> weight_interval ws j u)"
proof -
  let ?a = "accumulate_from 0 ws"
  let ?x = "u * sum_list ws"
  let ?n = "length ps"
  let ?j = "bisect_right ?a ?x 0 (?n - 1)"
  have wne: "ws \<noteq> []" using ne len by auto
  then have acc: "?a \<noteq> []" by (metis length_accumulate_from length_0_conv)
  have total: "last ?a = sum_list ws" using last_accumulate_from [OF wne, of 0] by simp
  have jle: "?j \<le> ?n - 1" using bisect_right_bounds [of 0 "?n - 1"] by simp
  then have jlt: "?j < ?n" using ne by (cases ps) auto
  have rc: "random_choices ps ws u = Some (ps ! ?j)"
    using ne len acc total tot by (simp add: random_choices_def Let_def)
  have iv: "weight_interval ws ?j u" if nn: "\<forall>w \<in> set ws. 0 \<le> w" and u: "0 \<le> u" "u < 1"
  proof -
    have mono: "\<And>i j. i \<le> j \<Longrightarrow> j < length ?a \<Longrightarrow> ?a ! i \<le> ?a ! j"
      using accumulate_from_mono [OF nn] by simp
    have hi: "?n - 1 \<le> length ?a" using len by simp
    from bisect_right_spec [of 0 "?n - 1" ?a ?x, OF _ hi mono]
    have sp: "(\<forall>i. i < ?j \<longrightarrow> ?a ! i \<le> ?x)" "(\<forall>i. ?j \<le> i \<and> i < ?n - 1 \<longrightarrow> ?x < ?a ! i)"
      by simp_all
    have lower: "sum_list (take ?j ws) \<le> ?x"
    proof (cases ?j)
      case 0
      then show ?thesis using u(1) tot by simp
    next
      case (Suc k)
      then have "k < ?j" "k < length ws" using jlt len by auto
      with sp(1) have "?a ! k \<le> ?x" by blast
      then show ?thesis using \<open>k < length ws\<close> Suc by (simp add: accumulate_from_nth)
    qed
    have upper: "?x < sum_list (take (Suc ?j) ws)"
    proof (cases "?j < ?n - 1")
      case True
      with sp(2) have "?x < ?a ! ?j" by blast
      then show ?thesis using jlt len by (simp add: accumulate_from_nth)
    next
      case False
      with jle have "Suc ?j = length ws" using len ne by (cases ps) auto
      then have "take (Suc ?j) ws = ws" by simp
      moreover have "?x < sum_list ws" using u(2) tot by simp
      ultimately show ?thesis by simp
    qed
    show ?thesis using jlt len lower upper by (simp add: weight_interval_def)
  qed
  show ?thesis using jlt rc iv by blast
qed

lemma draw_prizes_rows:
  assumes "ps \<noteq> []" and "0 < sum_probs ps"
  shows "\<exists>won d2. draw_prizes ps uid rs d = Some (won, d2)
           \<and> length won = length rs
           \<and> (\<forall>k < length rs. \<exists>j < length ps.
                 random_choices ps (map probability ps) (rs ! k) = Some (ps ! j)
                 \<and> won ! k = prize_row uid (ps ! j) (next_item_id d + int k) (nfts d)
                 \<and> ((\<forall>p \<in> set ps. 0 \<le> probability p) \<and> 0 \<le> rs ! k \<and> rs ! k < 1
                       \<longrightarrow> weight_interval (map probability ps) j (rs ! k)))"
proof (induction rs arbitrary: d)
  case Nil
  show ?case by simp
next
  case (Cons r rs)
  from random_choices_index [of ps "map probability ps" r] assms
  obtain j where j: "j < length ps" "random_choices ps (map probability ps) r = Some (ps ! j)"
      "(\<forall>w \<in> set (map probability ps). 0 \<le> w) \<and> 0 \<le> r \<and> r < 1
         \<longrightarrow> weight_interval (map probability ps) j r"
    by (auto simp: sum_probs_def)
  let ?item = "prize_row uid (ps ! j) (next_item_id d) (nfts d)"
  let ?d1 = "d\<lparr>inventory_items := inventory_items d @ [?item],
               next_item_id := next_item_id d + 1\<rparr>"
  from Cons.IH [of ?d1] obtain won d2 where
    ih: "draw_prizes ps uid rs ?d1 = Some (won, d2)" "length won = length rs"
        "\<forall>k < length rs. \<exists>j < length ps.
                 random_choices ps (map probability ps) (rs ! k) = Some (ps ! j)
                 \<and> won ! k = prize_row uid (ps ! j) (next_item_id ?d1 + int k) (nfts ?d1)
                 \<and> ((\<forall>p \<in> set ps. 0 \<le> probability p) \<and> 0 \<le> rs ! k \<and> rs ! k < 1
                       \<longrightarrow> weight_interval (map probability ps) j (rs ! k))"
    by blast
  have step: "draw_prizes ps uid (r # rs) d = Some (?item # won, d2)"
    using j(2) ih(1) by (simp add: add_item_def Let_def prize_row_def get_nft_by_name_def)
  have rows: "\<exists>j < length ps.
                 random_choices ps (map probability ps) ((r # rs) ! k) = Some (ps ! j)
                 \<and> (?item # won) ! k = prize_row uid (ps ! j) (next_item_id d + int k) (nfts d)
                 \<and> ((\<forall>p \<in> set ps. 0 \<le> probability p) \<and> 0 \<le> (r # rs) ! k \<and> (r # rs) ! k < 1
                       \<longrightarrow> weight_interval (map probability ps) j ((r # rs) ! k))"
    if "k < length (r # rs)" for k
  proof (cases k)
    case 0
    then show ?thesis using j by auto
  next
    case (Suc m)
    with that have "m < length rs" by simp
    with ih(3) obtain j' where "j' < length ps"
        "random_choices ps (map probability ps) (rs ! m) = Some (ps ! j')"
        "won ! m = prize_row uid (ps ! j') (next_item_id ?d1 + int m) (nfts ?d1)"
        "(\<forall>p \<in> set ps. 0 \<le> probability p) \<and> 0 \<le> rs ! m \<and> rs ! m < 1
                       \<longrightarrow> weight_interval (map probability ps) j' (rs ! m)"
      by blast
    then show ?thesis using Suc by (auto simp: algebra_simps)
  qed
  show ?case
    using step ih(2) rows by (intro exI [of _ "?item # won"] exI [of _ d2]) simp
qed

text \<open>
  C4. For an existing account, an existing case and a quantity of 1, 2 or 3: when the
  balance is below price times quantity the request fails with the insufficient-funds
  error and the state is unchanged; otherwise, on a non-empty table of positive total
  weight, the balance is lowered by exactly price times quantity and exactly quantity
  new inventory rows are appended, each drawn from the case's table: row \<open>k\<close> is the row
  of the prize that the sampler selects for the random value \<open>rnd k\<close>, and when the
  weights are non-negative and \<open>rnd k\<close> is in [0, 1) that is the prize at the position
  \<open>j\<close> for which the weights before \<open>j\<close> sum to at most \<open>rnd k\<close> times the total weight
  and the weights up to and including \<open>j\<close> sum to more. With price 2, quantity 3 and
  balance 10 the balance afterwards is 4 and 3 rows are new.
\<close>

theorem open_case_debits_and_creates:
  assumes auth: "auth = Some a"
    and cid: "c \<noteq> []"
    and mult: "mult \<in> {1, 2, 3}"
    and user: "get_user (auth_id a) d = Some u"
    and tcase: "find (\<lambda>k. Some (case_id k) = Some c) cases = Some tcase"
  shows "(ton_balance u < priceTON tcase * of_int mult \<longrightarrow>
            open_case_api cases auth (Some c) mult rnd d = (Error 400 ''Not enough TON'', d))
       \<and> (\<not> ton_balance u < priceTON tcase * of_int mult
            \<and> prizes tcase \<noteq> [] \<and> 0 < sum_probs (prizes tcase) \<longrightarrow>
            (\<exists>won d'. open_case_api cases auth (Some c) mult rnd d
                        = (OpenCaseSuccess won (ton_balance u - priceTON tcase * of_int mult), d')
               \<and> get_user (auth_id a) d'
                   = Some (u\<lparr>ton_balance := ton_balance u - priceTON tcase * of_int mult\<rparr>)
               \<and> int (length won) = mult
               \<and> inventory_items d' = inventory_items d @ won
               \<and> map item_id won = map (\<lambda>k. next_item_id d + int k) [0 ..< nat mult]
               \<and> (\<forall>it \<in> set won. drawn_from (prizes tcase) (auth_id a) it)
               \<and> (\<forall>k < nat mult. \<exists>j < length (prizes tcase).
                     random_choices (prizes tcase) (map probability (prizes tcase)) (rnd k)
                       = Some (prizes tcase ! j)
                     \<and> won ! k = prize_row (auth_id a) (prizes tcase ! j)
                                    (next_item_id d + int k) (nfts d)
                     \<and> ((\<forall>p \<in> set (prizes tcase). 0 \<le> probability p) \<and> 0 \<le> rnd k \<and> rnd k < 1
                           \<longrightarrow> weight_interval (map probability (prizes tcase)) j (rnd k)))))
       \<and> (priceTON tcase = 2 \<and> mult = 3 \<and> ton_balance u = 10
            \<and> prizes tcase \<noteq> [] \<and> 0 < sum_probs (prizes tcase) \<longrightarrow>
            (\<exists>won d'. open_case_api cases auth (Some c) mult rnd d = (OpenCaseSuccess won 4, d')
               \<and> map_option ton_balance (get_user (auth_id a) d') = Some 4
               \<and> length won = 3
               \<and> inventory_items d' = inventory_items d @ won))"
proof -
  let ?cost = "priceTON tcase * of_int mult"
  let ?d1 = "update_user (auth_id a) (\<lambda>v. v\<lparr>ton_balance := ton_balance u - ?cost\<rparr>) d"
  let ?ps = "prizes tcase"
  have uid: "user_id u = auth_id a"
    using find_Some_holds [OF user [unfolded get_user_def]] .
  have poor: "ton_balance u < ?cost \<Longrightarrow>
      open_case_api cases auth (Some c) mult rnd d = (Error 400 ''Not enough TON'', d)"
    using auth cid mult user tcase
    by (auto simp add: open_case_api_def falsy_str_def Let_def)
  have rich: "\<exists>won d'. open_case_api cases auth (Some c) mult rnd d
                        = (OpenCaseSuccess won (ton_balance u - ?cost), d')
               \<and> get_user (auth_id a) d' = Some (u\<lparr>ton_balance := ton_balance u - ?cost\<rparr>)
               \<and> int (length won) = mult
               \<and> inventory_items d' = inventory_items d @ won
               \<and> map item_id won = map (\<lambda>k. next_item_id d + int k) [0 ..< nat mult]
               \<and> (\<forall>it \<in> set won. drawn_from ?ps (auth_id a) it)
               \<and> (\<forall>k < nat mult. \<exists>j < length ?ps.
                     random_choices ?ps (map probability ?ps) (rnd k) = Some (?ps ! j)
                     \<and> won ! k = prize_row (auth_id a) (?ps ! j) (next_item_id d + int k) (nfts d)
                     \<and> ((\<forall>p \<in> set ?ps. 0 \<le> probability p) \<and> 0 \<le> rnd k \<and> rnd k < 1
                           \<longrightarrow> weight_interval (map probability ?ps) j (rnd k)))"
    if enough: "\<not> ton_balance u < ?cost"
      and table: "?ps \<noteq> []" "0 < sum_probs ?ps"
  proof -
    from draw_prizes_result [OF table, of "auth_id a" "map rnd [0 ..< nat mult]" ?d1]
    obtain won d2 where
      dr: "draw_prizes ?ps (auth_id a) (map rnd [0 ..< nat mult]) ?d1 = Some (won, d2)"
          "length won = nat mult" "users d2 = users ?d1"
          "inventory_items d2 = inventory_items ?d1 @ won"
          "map item_id won = map (\<lambda>k. next_item_id ?d1 + int k) [0 ..< nat mult]"
          "\<forall>it \<in> set won. drawn_from ?ps (auth_id a) it"
      by auto
    from draw_prizes_rows [OF table, of "auth_id a" "map rnd [0 ..< nat mult]" ?d1] dr(1)
    have rows0: "\<forall>k < nat mult. \<exists>j < length ?ps.
           random_choices ?ps (map probability ?ps) (map rnd [0 ..< nat mult] ! k) = Some (?ps ! j)
           \<and> won ! k = prize_row (auth_id a) (?ps ! j) (next_item_id ?d1 + int k) (nfts ?d1)
           \<and> ((\<forall>p \<in> set ?ps. 0 \<le> probability p) \<and> 0 \<le> map rnd [0 ..< nat mult] ! k
                  \<and> map rnd [0 ..< nat mult] ! k < 1
                 \<longrightarrow> weight_interval (map probability ?ps) j (map rnd [0 ..< nat mult] ! k))"
      by auto
    have rows: "\<forall>k < nat mult. \<exists>j < length ?ps.
           random_choices ?ps (map probability ?ps) (rnd k) = Some (?ps ! j)
           \<and> won ! k = prize_row (auth_id a) (?ps ! j) (next_item_id d + int k) (nfts d)
           \<and> ((\<forall>p \<in> set ?ps. 0 \<le> probability p) \<and> 0 \<le> rnd k \<and> rnd k < 1
                 \<longrightarrow> weight_interval (map probability ?ps) j (rnd k))"
    proof (intro allI impI)
      fix k assume k: "k < nat mult"
      then have "map rnd [0 ..< nat mult] ! k = rnd k" by simp
      moreover have "next_item_id ?d1 = next_item_id d" "nfts ?d1 = nfts d"
        by (simp_all add: update_user_def)
      ultimately show "\<exists>j < length ?ps.
           random_choices ?ps (map probability ?ps) (rnd k) = Some (?ps ! j)
           \<and> won ! k = prize_row (auth_id a) (?ps ! j) (next_item_id d + int k) (nfts d)
           \<and> ((\<forall>p \<in> set ?ps. 0 \<le> probability p) \<and> 0 \<le> rnd k \<and> rnd k < 1
                 \<longrightarrow> weight_interval (map probability ?ps) j (rnd k))"
        using rows0 k by (metis (no_types, lifting))
    qed
    have resp: "open_case_api cases auth (Some c) mult rnd d
                  = (OpenCaseSuccess won (ton_balance u - ?cost), d2)"
      using auth cid mult user tcase enough dr(1)
      by (auto simp add: open_case_api_def falsy_str_def Let_def)
    have "get_user (auth_id a) d2 = get_user (auth_id a) ?d1"
      using dr(3) by (simp add: get_user_def)
    also have "\<dots> = map_option (\<lambda>v. if user_id v = auth_id a
                          then v\<lparr>ton_balance := ton_balance u - ?cost\<rparr> else v)
                        (get_user (auth_id a) d)"
      by (rule get_user_update_user) simp
    finally have gu: "get_user (auth_id a) d2 = Some (u\<lparr>ton_balance := ton_balance u - ?cost\<rparr>)"
      using user uid by simp
    have len: "int (length won) = mult" using dr(2) mult by auto
    have inv: "inventory_items d2 = inventory_items d @ won"
      using dr(4) by (simp add: update_user_def)
    have ids: "map item_id won = map (\<lambda>k. next_item_id d + int k) [0 ..< nat mult]"
      using dr(5) by (simp add: update_user_def)
    show ?thesis using resp gu len inv ids dr(6) rows by blast
  qed
  have scenario: "\<exists>won d'. open_case_api cases auth (Some c) mult rnd d = (OpenCaseSuccess won 4, d')
               \<and> map_option ton_balance (get_user (auth_id a) d') = Some 4
               \<and> length won = 3
               \<and> inventory_items d' = inventory_items d @ won"
    if sc: "priceTON tcase = 2" "mult = 3" "ton_balance u = 10"
      and table: "?ps \<noteq> []" "0 < sum_probs ?ps"
  proof -
    have "\<not> ton_balance u < ?cost" using sc by simp
    from rich [OF this table] obtain won d' where
      r: "open_case_api cases auth (Some c) mult rnd d
            = (OpenCaseSuccess won (ton_balance u - ?cost), d')"
         "get_user (auth_id a) d' = Some (u\<lparr>ton_balance := ton_balance u - ?cost\<rparr>)"
         "int (length won) = mult" "inventory_items d' = inventory_items d @ won"
      by blast
    have "ton_balance u - ?cost = 4" using sc by simp
    with r sc(2) show ?thesis by auto
  qed
  show ?thesis using poor rich scenario by blast
qed

theorem open_case_debits_and_creates_witness:
  "get_user (auth_id example_auth) (example_db 10 (example_promo 1 5)) = Some (example_user 10 0)
   \<and> find (\<lambda>k. Some (case_id k) = Some ''two_a'') example_cases = Some (hd example_cases)
   \<and> priceTON (hd example_cases) = 2
   \<and> map probability (prizes (hd example_cases)) = [24 / 100, 76 / 100]
   \<and> map name (prizes (hd example_cases)) = [''A'', ''B'']
   \<and> example_rnd 0 = 1 / 10 \<and> example_rnd 1 = 1 / 2 \<and> example_rnd 2 = 1 / 2
   \<and> weight_interval [24 / 100, 76 / 100] 0 (1 / 10)
   \<and> weight_interval [24 / 100, 76 / 100] 1 (1 / 2)
   \<and> (\<exists>won d'. open_case_api example_cases (Some example_auth) (Some ''two_a'') 3 example_rnd
                   (example_db 10 (example_promo 1 5)) = (OpenCaseSuccess won 4, d')
          \<and> map_option ton_balance (get_user (auth_id example_auth) d') = Some 4
          \<and> inventory_items d' = [example_item] @ won
          \<and> won = [example_row ''A'' 10 4, example_row ''B'' 1 5, example_row ''B'' 1 6])
   \<and> open_case_api example_cases (Some example_auth) (Some ''two_a'') 3 example_rnd
       (example_db 10 (example_promo 1 5))
     = (OpenCaseSuccess [example_row ''A'' 10 4, example_row ''B'' 1 5, example_row ''B'' 1 6] 4,
        (example_db 10 (example_promo 1 5))
          \<lparr>users := [example_user 4 0],
            inventory_items := [example_item, example_row ''A'' 10 4, example_row ''B'' 1 5,
                                example_row ''B'' 1 6],
            next_item_id := 7\<rparr>)
   \<and> open_case_api example_cases (Some example_auth) (Some ''two_a'') 3 example_rnd
       (example_db 5 (example_promo 1 5))
     = (Error 400 ''Not enough TON'', example_db 5 (example_promo 1 5))"
proof -
  let ?d = "example_db 10 (example_promo 1 5)"
  let ?e = "example_db 5 (example_promo 1 5)"
  let ?ps = "prizes (hd example_cases)"
  let ?ws = "[24 / 100, 76 / 100] :: real list"
  have u: "get_user (auth_id example_auth) ?d = Some (example_user 10 0)"
    by (simp add: get_user_def example_db_def example_user_def example_auth_def)
  have u5: "get_user (auth_id example_auth) ?e = Some (example_user 5 0)"
    by (simp add: get_user_def example_db_def example_user_def example_auth_def)
  have f: "find (\<lambda>k. Some (case_id k) = Some ''two_a'') example_cases = Some (hd example_cases)"
    by (simp add: example_cases_def)
  have c: "''two_a'' \<noteq> []" and m: "(3::int) \<in> {1, 2, 3}" by simp_all
  have pr: "priceTON (hd example_cases) = 2" by (simp add: example_cases_def)
  have ws: "map probability ?ps = ?ws" by (simp add: example_cases_def)
  have ns: "map name ?ps = [''A'', ''B'']" by (simp add: example_cases_def)
  have sp: "0 < sum_probs ?ps" by (simp add: example_cases_def sum_probs_def)
  have ne: "?ps \<noteq> []" by (simp add: example_cases_def)
  have nn: "\<forall>p \<in> set ?ps. 0 \<le> probability p" by (simp add: example_cases_def)
  have nnw: "\<forall>w \<in> set ?ws. 0 \<le> w" by simp
  have b: "ton_balance (example_user 10 0) = 10" "ton_balance (example_user 5 0) = 5"
    by (simp_all add: example_user_def)
  have r: "example_rnd 0 = 1 / 10" "example_rnd 1 = 1 / 2" "example_rnd 2 = 1 / 2"
    by (simp_all add: example_rnd_def)
  have w0: "weight_interval ?ws 0 (1 / 10)" and w1: "weight_interval ?ws 1 (1 / 2)"
    by (simp_all add: weight_interval_def)
  have rowA: "prize_row (auth_id example_auth) (?ps ! 0) (next_item_id ?d + int k) (nfts ?d)
                = example_row ''A'' 10 (4 + int k)" for k
    by (simp add: prize_row_def example_row_def example_cases_def example_auth_def
        example_db_def example_nft_def)
  have rowB: "prize_row (auth_id example_auth) (?ps ! 1) (next_item_id ?d + int k) (nfts ?d)
                = example_row ''B'' 1 (4 + int k)" for k
    by (simp add: prize_row_def example_row_def example_cases_def example_auth_def
        example_db_def example_nft_def)
  have inv: "inventory_items ?d = [example_item]" by (simp add: example_db_def)
  from open_case_debits_and_creates [OF refl c m u f, of example_rnd] pr sp ne b
  obtain won d' where
    o: "open_case_api example_cases (Some example_auth) (Some ''two_a'') 3 example_rnd ?d
          = (OpenCaseSuccess won 4, d')"
       "get_user (auth_id example_auth) d' = Some ((example_user 10 0)\<lparr>ton_balance := 4\<rparr>)"
       "length won = 3"
       "inventory_items d' = inventory_items ?d @ won"
       "\<forall>k < 3. \<exists>j < length ?ps.
           random_choices ?ps (map probability ?ps) (example_rnd k) = Some (?ps ! j)
           \<and> won ! k = prize_row (auth_id example_auth) (?ps ! j) (next_item_id ?d + int k) (nfts ?d)
           \<and> ((\<forall>p \<in> set ?ps. 0 \<le> probability p) \<and> 0 \<le> example_rnd k \<and> example_rnd k < 1
                 \<longrightarrow> weight_interval (map probability ?ps) j (example_rnd k))"
    by auto
  have pick: "won ! k = prize_row (auth_id example_auth) (?ps ! i) (next_item_id ?d + int k) (nfts ?d)"
    if k: "k < 3" and rv: "example_rnd k = v" and wi: "weight_interval ?ws i v"
      and rk: "0 \<le> v" "v < 1" for k i v
  proof -
    from o(5) k obtain j where
      j: "won ! k = prize_row (auth_id example_auth) (?ps ! j) (next_item_id ?d + int k) (nfts ?d)"
         "(\<forall>p \<in> set ?ps. 0 \<le> probability p) \<and> 0 \<le> example_rnd k \<and> example_rnd k < 1
            \<longrightarrow> weight_interval (map probability ?ps) j (example_rnd k)"
      by blast
    from j(2) nn rk have "weight_interval ?ws j v" unfolding ws rv by blast
    from weight_interval_unique [OF nnw this wi] j(1) show ?thesis by simp
  qed
  have half: "(0::real) \<le> 1 / 2" "(1::real) / 2 < 1" and tenth: "(0::real) \<le> 1 / 10" "(1::real) / 10 < 1"
    by simp_all
  have k3: "(0::nat) < 3" "(1::nat) < 3" "(2::nat) < 3" by simp_all
  have p0: "won ! 0 = example_row ''A'' 10 4"
    using trans [OF pick [OF k3(1) r(1) w0 tenth] rowA [of 0]] by simp
  have p1: "won ! 1 = example_row ''B'' 1 5"
    using trans [OF pick [OF k3(2) r(2) w1 half] rowB [of 1]] by simp
  have p2: "won ! 2 = example_row ''B'' 1 6"
    using trans [OF pick [OF k3(3) r(3) w1 half] rowB [of 2]] by simp
  have "\<exists>x y z. won = [x, y, z]"
    using o(3) by (auto simp: numeral_3_eq_3 length_Suc_conv)
  then obtain x y z where xyz: "won = [x, y, z]" by blast
  have won: "won = [example_row ''A'' 10 4, example_row ''B'' 1 5, example_row ''B'' 1 6]"
    using p0 p1 p2 unfolding xyz by simp
  have s: "\<exists>won d'. open_case_api example_cases (Some example_auth) (Some ''two_a'') 3 example_rnd ?d
                   = (OpenCaseSuccess won 4, d')
          \<and> map_option ton_balance (get_user (auth_id example_auth) d') = Some 4
          \<and> inventory_items d' = [example_item] @ won
          \<and> won = [example_row ''A'' 10 4, example_row ''B'' 1 5, example_row ''B'' 1 6]"
    using o(1,2,4) won inv by (intro exI [of _ won] exI [of _ d']) simp
  have n: "[0 ..< nat 3] = [0, 1, 2]" by (simp add: upt_rec)
  have ev: "open_case_api example_cases (Some example_auth) (Some ''two_a'') 3 example_rnd ?d
     = (OpenCaseSuccess [example_row ''A'' 10 4, example_row ''B'' 1 5, example_row ''B'' 1 6] 4,
        ?d\<lparr>users := [example_user 4 0],
            inventory_items := [example_item, example_row ''A'' 10 4, example_row ''B'' 1 5,
                                example_row ''B'' 1 6],
            next_item_id := 7\<rparr>)"
    unfolding open_case_api_def f n
    by (simp add: random_choices_def Let_def falsy_str_def example_auth_def example_db_def
        example_user_def get_user_def update_user_def add_item_def get_nft_by_name_def
        example_nft_def example_row_def example_rnd_def example_cases_def)
  from open_case_debits_and_creates [OF refl c m u5 f, of example_rnd] pr b
  have p: "open_case_api example_cases (Some example_auth) (Some ''two_a'') 3 example_rnd ?e
     = (Error 400 ''Not enough TON'', ?e)"
    by simp
  show ?thesis using u f pr ws ns r w0 w1 s ev p by (intro conjI)
qed

subsection \<open>Balances stay non-negative\<close>

lemma balances_ok_update_user:
  assumes "balances_ok d" and "\<And>v. 0 \<le> ton_balance (f v)"
  shows "balances_ok (update_user uid f d)"
  using assms by (auto simp: balances_ok_def update_user_def list_all_iff)

lemma get_user_balance:
  "balances_ok d \<Longrightarrow> get_user uid d = Some u \<Longrightarrow> 0 \<le> ton_balance u"
  unfolding get_user_def balances_ok_def list_all_iff
  by (auto simp: find_Some_iff)

lemma get_item_value:
  "list_all (\<lambda>i. 0 \<le> current_value i) (inventory_items d) \<Longrightarrow> get_item i uid d = Some it
     \<Longrightarrow> 0 \<le> current_value it"
  using get_item_holds [of i uid d it] by (auto simp: list_all_iff)

lemma draw_prizes_users:
  "draw_prizes ps uid rs d = Some (won, d2) \<Longrightarrow> users d2 = users d"
proof (induction rs arbitrary: d won d2)
  case Nil
  then show ?case by simp
next
  case (Cons r rs)
  then show ?case
    by (auto simp add: add_item_def Let_def split: option.splits prod.splits)
qed

lemma topup_ok:
  "balances_ok d \<Longrightarrow> balances_ok (snd (instant_topup_api auth amount d))"
  by (auto simp add: instant_topup_api_def split: option.splits
      intro!: balances_ok_update_user dest: get_user_balance)

lemma open_case_ok:
  assumes ok: "balances_ok d"
  shows "balances_ok (snd (open_case_api cases auth cid mult rnd d))"
proof (cases auth)
  case None
  then show ?thesis using ok by (simp add: open_case_api_def)
next
  case (Some a)
  show ?thesis
  proof (cases "falsy_str cid \<or> mult \<notin> {1, 2, 3}")
    case True
    then show ?thesis using ok Some by (simp add: open_case_api_def del: insert_iff)
  next
    case valid: False
    show ?thesis
    proof (cases "get_user (auth_id a) d")
      case None
      then show ?thesis using ok Some valid by (simp add: open_case_api_def del: insert_iff)
    next
      case user: (Some u)
      show ?thesis
      proof (cases "find (\<lambda>c. Some (case_id c) = cid) cases")
        case None
        then show ?thesis
          using ok Some valid user by (simp add: open_case_api_def del: insert_iff)
      next
        case tcase: (Some t)
        let ?cost = "priceTON t * of_int mult"
        let ?d1 = "update_user (auth_id a) (\<lambda>v. v\<lparr>ton_balance := ton_balance u - ?cost\<rparr>) d"
        show ?thesis
        proof (cases "ton_balance u < ?cost")
          case True
          then show ?thesis
            using ok Some valid user tcase
            by (simp add: open_case_api_def Let_def del: insert_iff)
        next
          case enough: False
          have d1: "balances_ok ?d1"
            using ok enough by (intro balances_ok_update_user) simp_all
          show ?thesis
          proof (cases "draw_prizes (prizes t) (auth_id a) (map rnd [0 ..< nat mult]) ?d1")
            case None
            then show ?thesis
              using ok Some valid user tcase enough
              by (simp add: open_case_api_def Let_def del: insert_iff)
          next
            case drawn: (Some r)
            obtain won d2 where r: "r = (won, d2)" by (cases r)
            have "users d2 = users ?d1"
              using drawn [unfolded r] by (rule draw_prizes_users)
            then have "balances_ok d2" using d1 by (simp add: balances_ok_def)
            then show ?thesis
              using Some valid user tcase enough drawn r
              by (simp add: open_case_api_def Let_def del: insert_iff)
          qed
        qed
      qed
    qed
  qed
qed

lemma upgrade_ok:
  "balances_ok d \<Longrightarrow> balances_ok (snd (upgrade_item_v2_api auth iid wanted roll d))"
  by (auto simp add: upgrade_item_v2_api_def Let_def update_user_def delete_item_def add_item_def
      balances_ok_def list_all_iff split: option.splits)

lemma convert_ok:
  "balances_ok d \<Longrightarrow> list_all (\<lambda>i. 0 \<le> current_value i) (inventory_items d)
     \<Longrightarrow> balances_ok (snd (convert_to_ton_api auth iid d))"
proof -
  assume ok: "balances_ok d" and vals: "list_all (\<lambda>i. 0 \<le> current_value i) (inventory_items d)"
  have *: "balances_ok (delete_item k (update_user uid
              (\<lambda>v. v\<lparr>ton_balance := ton_balance u + current_value it, total_won_ton := w\<rparr>) d))"
    if "get_user uid d = Some u" "get_item i uid d = Some it" for k uid u it w i
  proof -
    have "0 \<le> ton_balance u + current_value it"
      using get_user_balance [OF ok that(1)] get_item_value [OF vals that(2)] by simp
    then have "balances_ok (update_user uid
              (\<lambda>v. v\<lparr>ton_balance := ton_balance u + current_value it, total_won_ton := w\<rparr>) d)"
      using ok by (intro balances_ok_update_user) simp_all
    then show ?thesis by (simp add: balances_ok_def delete_item_def)
  qed
  show ?thesis
    using ok
    by (auto simp add: convert_to_ton_api_def Let_def split: option.splits intro!: *)
qed

lemma sell_all_ok:
  "balances_ok d \<Longrightarrow> list_all (\<lambda>i. 0 \<le> current_value i) (inventory_items d)
     \<Longrightarrow> balances_ok (snd (sell_all_items_api auth d))"
proof -
  assume ok: "balances_ok d" and vals: "list_all (\<lambda>i. 0 \<le> current_value i) (inventory_items d)"
  have nn: "0 \<le> sum_list (map current_value (filter P (inventory_items d)))" for P
    using vals by (intro sum_list_nonneg) (auto simp: list_all_iff)
  have *: "balances_ok (update_user uid
              (\<lambda>v. v\<lparr>ton_balance := ton_balance u
                        + sum_list (map current_value (filter P (inventory_items d))),
                      total_won_ton := w\<rparr>) d)"
    if "get_user uid d = Some u" for uid u w P
    using ok get_user_balance [OF ok that] nn [of P]
    by (intro balances_ok_update_user) simp_all
  show ?thesis
    using ok
    by (auto simp add: sell_all_items_api_def Let_def balances_ok_def [of "_\<lparr>inventory_items := _\<rparr>"]
        split: option.splits dest!: * [unfolded balances_ok_def])
qed

lemma referral_earnings_ok:
  "balances_ok d \<Longrightarrow> balances_ok (snd (withdraw_referral_earnings_api auth d))"
  by (auto simp add: withdraw_referral_earnings_api_def split: option.splits
      intro!: balances_ok_update_user dest: get_user_balance)

lemma withdraw_gift_ok:
  "balances_ok d \<Longrightarrow> balances_ok (snd (withdraw_gift_api post auth iid d))"
  by (auto simp add: withdraw_gift_api_def Let_def delete_item_def balances_ok_def
      split: option.splits ext_result.splits)

lemma redeem_ok:
  assumes ok: "balances_ok d" and amounts: "list_all (\<lambda>p. 0 \<le> ton_amount p) (promo_codes d)"
  shows "balances_ok (snd (redeem_promocode_api auth code d))"
proof (cases auth)
  case None
  then show ?thesis using ok by (simp add: redeem_promocode_api_def)
next
  case (Some a)
  show ?thesis
  proof (cases "get_user (auth_id a) d")
    case None
    then show ?thesis using ok Some by (simp add: redeem_promocode_api_def)
  next
    case user: (Some u)
    show ?thesis
    proof (cases "find (\<lambda>p. code_text p = code) (promo_codes d)")
      case None
      then show ?thesis using ok Some user by (simp add: redeem_promocode_api_def)
    next
      case promo: (Some p)
      let ?dp = "if activations_left p \<noteq> - 1
                 then update_promo (promo_id p)
                        (\<lambda>q. q\<lparr>activations_left := activations_left p - 1\<rparr>) d
                 else d"
      let ?du = "update_user (auth_id a) (\<lambda>v. v\<lparr>ton_balance := ton_balance u + ton_amount p\<rparr>) ?dp"
      have "p \<in> set (promo_codes d)" using promo by (auto simp: find_Some_iff)
      then have amt: "0 \<le> ton_amount p" using amounts by (simp add: list_all_iff)
      have "users ?dp = users d" by (simp add: update_promo_def)
      then have "balances_ok ?dp" using ok by (simp add: balances_ok_def)
      then have "balances_ok ?du"
        using amt get_user_balance [OF ok user] by (intro balances_ok_update_user) simp_all
      then have d3: "balances_ok (?du\<lparr>redemptions := redemptions ?du @
              [\<lparr> redemption_user_id = auth_id a, redemption_promo_code_id = promo_id p \<rparr>]\<rparr>)"
        by (simp add: balances_ok_def)
      show ?thesis
      proof (cases "code = [] \<or> (activations_left p \<noteq> - 1 \<and> activations_left p \<le> 0)
                    \<or> find (\<lambda>r. redemption_user_id r = auth_id a
                                 \<and> redemption_promo_code_id r = promo_id p) (redemptions d) \<noteq> None")
        case True
        then show ?thesis
          using ok Some user promo by (auto simp add: redeem_promocode_api_def)
      next
        case False
        then have "snd (redeem_promocode_api auth code d) =
             ?du\<lparr>redemptions := redemptions ?du @
              [\<lparr> redemption_user_id = auth_id a, redemption_promo_code_id = promo_id p \<rparr>]\<rparr>"
          using Some user promo by (auto simp add: redeem_promocode_api_def Let_def)
        then show ?thesis using d3 by simp
      qed
    qed
  qed
qed

text \<open>
  C5, as the specification states it. A promo code with a negative amount is redeemed without
  any check: from balance 0 the redemption of a code of amount \<open>-5\<close> leaves the
  balance at \<open>-5\<close>.
\<close>

theorem negative_promo_counterexample:
  "balances_ok (example_db 0 (example_promo (- 1) (- 5)))
   \<and> map ton_balance (users (snd (ledger_step example_cases (Some example_auth)
         (RedeemPromo ''WELCOME'') (example_db 0 (example_promo (- 1) (- 5)))))) = [- 5]
   \<and> \<not> balances_ok (snd (ledger_step example_cases (Some example_auth)
         (RedeemPromo ''WELCOME'') (example_db 0 (example_promo (- 1) (- 5)))))"
  by (simp add: redeem_promocode_api_def example_auth_def example_db_def example_promo_def
      example_user_def get_user_def update_user_def update_promo_def Let_def balances_ok_def)

text \<open>
  C5, amended. When no balance is negative, no inventory item has a negative valuation
  and no promo code has a negative amount, then after any single ledger operation
  (top-up, open case, upgrade, conversion, sell all, promo redemption, withdrawal of
  referral earnings, gift withdrawal) no balance is negative.
\<close>

theorem balance_stays_non_negative:
  assumes "balances_ok d"
    and "list_all (\<lambda>i. 0 \<le> current_value i) (inventory_items d)"
    and "list_all (\<lambda>p. 0 \<le> ton_amount p) (promo_codes d)"
  shows "balances_ok (snd (ledger_step cases auth req d))"
  using assms
  by (cases req)
     (simp_all add: topup_ok open_case_ok upgrade_ok convert_ok sell_all_ok redeem_ok
        referral_earnings_ok withdraw_gift_ok)

theorem balance_stays_non_negative_witness:
  "balances_ok (example_db 0 (example_promo 1 5))
   \<and> list_all (\<lambda>i. 0 \<le> current_value i) (inventory_items (example_db 0 (example_promo 1 5)))
   \<and> list_all (\<lambda>p. 0 \<le> ton_amount p) (promo_codes (example_db 0 (example_promo 1 5)))
   \<and> balances_ok (snd (ledger_step example_cases (Some example_auth) (RedeemPromo ''WELCOME'')
         (example_db 0 (example_promo 1 5))))
   \<and> map ton_balance (users (snd (ledger_step example_cases (Some example_auth)
         (RedeemPromo ''WELCOME'') (example_db 0 (example_promo 1 5))))) = [5]"
proof -
  let ?d = "example_db 0 (example_promo 1 5)"
  have h1: "balances_ok ?d"
    by (simp add: balances_ok_def example_db_def example_user_def)
  have h2: "list_all (\<lambda>i. 0 \<le> current_value i) (inventory_items ?d)"
    by (simp add: example_db_def example_item_def)
  have h3: "list_all (\<lambda>p. 0 \<le> ton_amount p) (promo_codes ?d)"
    by (simp add: example_db_def example_promo_def)
  have e: "map ton_balance (users (snd (ledger_step example_cases (Some example_auth)
         (RedeemPromo ''WELCOME'') ?d))) = [5]"
    by (simp add: redeem_promocode_api_def example_auth_def example_db_def example_promo_def
      example_user_def get_user_def update_user_def update_promo_def Let_def)
  from balance_stays_non_negative [OF h1 h2 h3, of example_cases "Some example_auth"
      "RedeemPromo ''WELCOME''"] h1 h2 h3 e
  show ?thesis by (intro conjI)
qed

section \<open>Properties of the validation\<close>

lemma check_string_eq:
  "spec_signature_matches L data token =
     (case map_of data ''hash'' of
        None \<Rightarrow> False
      | Some h \<Rightarrow> hexdigest L (hmac_sha256 L (hmac_sha256 L ''WebAppData'' token)
                     (check_string data)) = h)"
  unfolding spec_signature_matches_def check_string_def by (rule refl)

text \<open>
  C9, as the specification states it. Whatever the library functions are, the payload that
  consists of the signature field alone, correctly signed, is rejected: the function
  returns the decoded \<^verbatim>\<open>user\<close> field, which the payload lacks.
\<close>

theorem signed_payload_without_user_counterexample:
  "\<not> (\<exists>L. \<forall>data token.
         (validate_fields L data token \<noteq> None) = spec_signature_matches L data token)"
proof
  assume "\<exists>L. \<forall>data token.
         (validate_fields L data token \<noteq> None) = spec_signature_matches L data token"
  then obtain L where L: "\<And>data token.
         (validate_fields L data token \<noteq> None) = spec_signature_matches L data token"
    by blast
  let ?sig = "hexdigest L (hmac_sha256 L (hmac_sha256 L ''WebAppData'' ''secret'') [])"
  let ?data = "[(''hash'', ?sig)]"
  have cs: "check_string ?data = []" by (simp add: check_string_def)
  have "spec_signature_matches L ?data ''secret''"
    by (simp add: check_string_eq cs)
  moreover have "validate_fields L ?data ''secret'' = None"
    by (simp add: validate_fields_def cs Let_def)
  ultimately show False using L [of ?data "''secret''"] by simp
qed

text \<open>
  C9, amended. Validation accepts, returning the identity, if and only if the payload
  and the token are non-empty, the hexadecimal HMAC-SHA256 of the sorted
  \<open>key=value\<close> lines of all fields but the signature, keyed by the HMAC-SHA256 of the
  token under the key \<^verbatim>\<open>WebAppData\<close>, equals the supplied signature, and the
  \<^verbatim>\<open>user\<close> field is present and decodes to that identity. No age is checked: a
  payload with any \<^verbatim>\<open>auth_date\<close> that satisfies these conditions is accepted, and
  \<open>AUTH_DATE_MAX_AGE_SECONDS\<close> is not used.
\<close>

theorem validate_accepts_iff:
  "(validate_init_data L init_data_str token = Some usr) =
     (\<not> falsy_str init_data_str \<and> \<not> falsy_str token
      \<and> spec_signature_matches L (parse_qs L (the init_data_str)) (the token)
      \<and> (\<exists>u. map_of (filter (\<lambda>(k, v). k \<noteq> ''hash'') (parse_qs L (the init_data_str))) ''user''
                 = Some u
             \<and> decode_user L (unquote L u) = Some usr))
   \<and> (\<forall>age data secret.
         spec_signature_matches L ((''auth_date'', age) # data) secret
         \<and> (\<exists>u. map_of (filter (\<lambda>(k, v). k \<noteq> ''hash'') ((''auth_date'', age) # data)) ''user''
                    = Some u
                \<and> decode_user L (unquote L u) = Some usr)
         \<longrightarrow> validate_fields L ((''auth_date'', age) # data) secret = Some usr)"
  by (auto simp add: validate_init_data_def validate_fields_def check_string_eq Let_def
      split: option.splits)

lemma toy_parse:
  "parse_qs toy_lib toy_init_data =
     [(''auth_date'', ''0''), (''user'', ''u1''),
      (''hash'', ''WebAppData|secret|auth_date=0\<newline>user=u1'')]"
  by (simp add: toy_lib_def toy_init_data_def)

lemma toy_check: "check_string (parse_qs toy_lib toy_init_data) = ''auth_date=0\<newline>user=u1''"
  unfolding toy_parse by (simp add: check_string_def)

theorem validate_accepts_iff_witness:
  "spec_signature_matches toy_lib (parse_qs toy_lib toy_init_data) ''secret''
   \<and> map_of (parse_qs toy_lib toy_init_data) ''auth_date'' = Some ''0''
   \<and> validate_init_data toy_lib (Some toy_init_data) (Some ''secret'') = Some example_auth
   \<and> validate_init_data toy_lib (Some toy_init_data) (Some ''other'') = None"
proof -
  have h: "map_of (parse_qs toy_lib toy_init_data) ''hash''
             = Some ''WebAppData|secret|auth_date=0\<newline>user=u1''"
    unfolding toy_parse by simp
  have m: "spec_signature_matches toy_lib (parse_qs toy_lib toy_init_data) ''secret''"
    unfolding check_string_eq toy_check h by (simp add: toy_lib_def)
  have n: "\<not> spec_signature_matches toy_lib (parse_qs toy_lib toy_init_data) ''other''"
    unfolding check_string_eq toy_check h by (simp add: toy_lib_def)
  have a: "map_of (parse_qs toy_lib toy_init_data) ''auth_date'' = Some ''0''"
    unfolding toy_parse by simp
  have u: "map_of (filter (\<lambda>(k, v). k \<noteq> ''hash'') (parse_qs toy_lib toy_init_data)) ''user''
             = Some ''u1''"
    unfolding toy_parse by simp
  have d: "decode_user toy_lib (unquote toy_lib ''u1'') = Some example_auth"
    by (simp add: toy_lib_def)
  have t: "toy_init_data \<noteq> []" by (simp add: toy_init_data_def)
  have yes: "validate_init_data toy_lib (Some toy_init_data) (Some ''secret'') = Some example_auth"
    using validate_accepts_iff [of toy_lib "Some toy_init_data" "Some ''secret''" example_auth]
      m u d t
    by (simp add: falsy_str_def)
  have no: "validate_init_data toy_lib (Some toy_init_data) (Some ''other'') = None"
  proof (cases "validate_init_data toy_lib (Some toy_init_data) (Some ''other'')")
    case None
    then show ?thesis .
  next
    case (Some x)
    then show ?thesis
      using validate_accepts_iff [of toy_lib "Some toy_init_data" "Some ''other''" x] n
      by simp
  qed
  show ?thesis using m a yes no by (intro conjI)
qed

end
